theory Spec2Isabelle
  imports Complex_Main
begin

section \<open>Data model (store/core/models.py)\<close>

text \<open>
  Python values that cross the boundary to the payment gateway: the decoded JSON body
  of a gateway reply. JSON numbers are restricted to integers (the gateway's result
  codes and reference ids are integers); a JSON object is an association list.
\<close>

datatype pyval =
    PNone
  | PBool bool
  | PInt int
  | PStr string
  | PList "pyval list"
  | PDict "(string \<times> pyval) list"

text \<open>Exceptions that the modelled views can raise.\<close>

datatype py_exn =
    AttributeError
  | KeyError
  | TypeError
  | DoesNotExist
  | MultipleObjectsReturned
  | RequestException
  | ValueError
  | DataError
  | IntegrityError

text \<open>
  \<^verbatim>\<open>Product\<close>: \<^verbatim>\<open>price\<close> and \<^verbatim>\<open>count\<close> are IntegerFields, \<^verbatim>\<open>discount\<close> is a FloatField.
  Python floats are modelled as exact rationals throughout: rounding of binary floating
  point is not part of the model.
\<close>

record product =
  p_id :: int
  p_name :: string
  p_price :: int
  p_discount :: rat
  p_enabled :: bool
  p_count :: int

record invoice_item =
  ii_product :: int
  ii_invoice :: int
  ii_count :: int
  ii_price :: rat
  ii_discount :: rat
  ii_total :: rat
  ii_name :: string

record invoice =
  i_id :: int
  i_number :: "int option"
  i_user :: int
  i_total :: rat
  i_discount :: rat
  i_description :: "string option"
  i_address :: string
  i_vat :: rat

datatype payment_status = STATUS_PENDING | STATUS_DONE | STATUS_ERROR

text \<open>
  The text of \<^verbatim>\<open>Payment.error_message\<close>: unset, the message of the gateway, or
  \<^verbatim>\<open>f'error in connection to zarinpal: {str(e)}'\<close> for the exception \<open>e\<close>.
\<close>

datatype err_text = NoText | GatewayText pyval | ConnectionText py_exn

text \<open>
  \<^verbatim>\<open>Payment\<close>. \<open>PNone\<close> is SQL NULL. The columns that a checkout writes from the reply
  of the gateway (\<^verbatim>\<open>authority\<close>, \<^verbatim>\<open>error_code\<close>, \<^verbatim>\<open>error_message\<close>) hold the text that
  the row gets, see \<open>insert_payment\<close>; \<^verbatim>\<open>ref\<close> holds the reference of the gateway as the
  verify view assigned it. What the database checks of a new row (NOT NULL of
  \<^verbatim>\<open>authority\<close>, the widths \<^verbatim>\<open>max_length\<close>, no NUL character) is \<open>db_error\<close>; the UPDATE
  of the verify view is taken to pass the database.
\<close>

record payment =
  pay_id :: int
  pay_invoice :: int
  pay_total :: rat
  pay_ref :: pyval
  pay_status :: payment_status
  pay_authority :: pyval
  pay_description :: string
  pay_user_ip :: "string option"
  pay_error_code :: pyval
  pay_error_message :: err_text

text \<open>The database: one list of rows per table. Primary keys are the \<open>_id\<close> fields.\<close>

record db =
  products :: "product list"
  invoices :: "invoice list"
  invoice_items :: "invoice_item list"
  payments :: "payment list"

text \<open>
  The session cart: a Python dict from \<^verbatim>\<open>str(product.id)\<close> to a quantity, in insertion
  order. Its keys are only ever written by \<^verbatim>\<open>add_to_cart\<close> as \<^verbatim>\<open>str(obj.id)\<close>; the model
  keeps the integer such a key denotes, so \<^verbatim>\<open>int(key)\<close> is the key itself and
  \<^verbatim>\<open>key.isdigit()\<close> says that it is not negative.
\<close>

type_synonym cart = "(int \<times> int) list"

section \<open>Python dictionaries\<close>

definition dict_get :: "('k \<times> 'v) list \<Rightarrow> 'k \<Rightarrow> 'v \<Rightarrow> 'v" where
  "dict_get d k dflt = (case map_of d k of None \<Rightarrow> dflt | Some v \<Rightarrow> v)"

fun dict_set :: "('k \<times> 'v) list \<Rightarrow> 'k \<Rightarrow> 'v \<Rightarrow> ('k \<times> 'v) list" where
  "dict_set [] k v = [(k, v)]"
| "dict_set ((k', v') # d) k v = (if k' = k then (k, v) # d else (k', v') # dict_set d k v)"

definition dict_del :: "('k \<times> 'v) list \<Rightarrow> 'k \<Rightarrow> ('k \<times> 'v) list" where
  "dict_del d k = filter (\<lambda>kv. fst kv \<noteq> k) d"

text \<open>\<^verbatim>\<open>v.get(k, dflt)\<close> and \<^verbatim>\<open>v[k]\<close> on a decoded JSON value.\<close>

fun py_get :: "pyval \<Rightarrow> string \<Rightarrow> pyval \<Rightarrow> py_exn + pyval" where
  "py_get (PDict d) k dflt = Inr (dict_get d k dflt)"
| "py_get _ k dflt = Inl AttributeError"

fun py_index :: "pyval \<Rightarrow> string \<Rightarrow> py_exn + pyval" where
  "py_index (PDict d) k = (case map_of d k of None \<Rightarrow> Inl KeyError | Some v \<Rightarrow> Inr v)"
| "py_index _ k = Inl TypeError"

section \<open>Python's \<^verbatim>\<open>str\<close>\<close>

text \<open>
  \<^verbatim>\<open>str(v)\<close> for a decoded JSON value. A character is a code point below 256. The text
  of a string inside a list or dict is its \<^verbatim>\<open>repr\<close>: in single quotes, or in double
  quotes when it holds a single quote and no double quote; the quote and the backslash
  are escaped, tab, newline and carriage return are written \<^verbatim>\<open>\t\<close>, \<^verbatim>\<open>\n\<close>, \<^verbatim>\<open>\r\<close>, and
  every other code point that is not printable (0 to 31, 127 to 160, 173) as \<^verbatim>\<open>\xNN\<close>.
\<close>

fun str_nat :: "nat \<Rightarrow> string" where
  "str_nat n =
     (if n < 10 then [''0123456789'' ! n]
      else str_nat (n div 10) @ [''0123456789'' ! (n mod 10)])"

definition str_int :: "int \<Rightarrow> string" where
  "str_int i = (if i < 0 then CHR ''-'' # str_nat (nat (- i)) else str_nat (nat i))"

definition str_quote :: "string \<Rightarrow> char" where
  "str_quote s = (if CHR 0x27 \<in> set s \<and> CHR 0x22 \<notin> set s then CHR 0x22 else CHR 0x27)"

definition escape_char :: "char \<Rightarrow> char \<Rightarrow> string" where
  "escape_char q c =
     (let n = of_char c :: nat
      in if c = q \<or> c = CHR 0x5C then [CHR 0x5C, c]
         else if n = 9 then [CHR 0x5C, CHR ''t'']
         else if n = 10 then [CHR 0x5C, CHR ''n'']
         else if n = 13 then [CHR 0x5C, CHR ''r'']
         else if n < 32 \<or> (127 \<le> n \<and> n \<le> 160) \<or> n = 173
           then [CHR 0x5C, CHR ''x'', ''0123456789abcdef'' ! (n div 16),
                 ''0123456789abcdef'' ! (n mod 16)]
         else [c])"

definition repr_str :: "string \<Rightarrow> string" where
  "repr_str s = (let q = str_quote s in q # concat (map (escape_char q) s) @ [q])"

fun join :: "string \<Rightarrow> string list \<Rightarrow> string" where
  "join sep [] = []"
| "join sep [x] = x"
| "join sep (x # y # ys) = x @ sep @ join sep (y # ys)"

fun py_repr :: "pyval \<Rightarrow> string" where
  "py_repr PNone = ''None''"
| "py_repr (PBool b) = (if b then ''True'' else ''False'')"
| "py_repr (PInt i) = str_int i"
| "py_repr (PStr s) = repr_str s"
| "py_repr (PList xs) = ''['' @ join '', '' (map py_repr xs) @ '']''"
| "py_repr (PDict kvs) =
     ''{'' @ join '', '' (map (\<lambda>kv. repr_str (fst kv) @ '': '' @ py_repr (snd kv)) kvs) @ ''}''"

definition py_str :: "pyval \<Rightarrow> string" where
  "py_str v = (case v of PStr s \<Rightarrow> s | _ \<Rightarrow> py_repr v)"

text \<open>
  What a CharField or TextField writes for an assigned value (\<^verbatim>\<open>to_python\<close>): NULL for
  \<^verbatim>\<open>None\<close>, a string as it is, \<^verbatim>\<open>str(value)\<close> for anything else.
\<close>

definition to_python :: "pyval \<Rightarrow> pyval" where
  "to_python v = (if v = PNone then PNone else PStr (py_str v))"

section \<open>Numbers\<close>

text \<open>\<^verbatim>\<open>int(x)\<close> on a float truncates towards zero.\<close>

definition py_int :: "rat \<Rightarrow> int" where
  "py_int x = (if 0 \<le> x then \<lfloor>x\<rfloor> else \<lceil>x\<rceil>)"

text \<open>\<^verbatim>\<open>round(x, 2)\<close>: to two decimals, a tie going to the even neighbour.\<close>

definition round_half_even :: "rat \<Rightarrow> int" where
  "round_half_even x =
     (let f = \<lfloor>x\<rfloor>; r = x - of_int f
      in if r < 1 / 2 then f else if 1 / 2 < r then f + 1 else if even f then f else f + 1)"

definition py_round2 :: "rat \<Rightarrow> rat" where
  "py_round2 x = of_int (round_half_even (x * 100)) / 100"

section \<open>Cart store (store/core/views.py)\<close>

definition add_to_cart :: "cart \<Rightarrow> product \<Rightarrow> cart" where
  "add_to_cart cart obj =
     (if p_count obj > 0 \<and> p_enabled obj
      then dict_set cart (p_id obj) (dict_get cart (p_id obj) 0 + 1)
      else cart)"

definition remove_from_cart :: "cart \<Rightarrow> int \<Rightarrow> cart" where
  "remove_from_cart cart item_id =
     (if item_id \<in> fst ` set cart then dict_del cart item_id else cart)"

section \<open>Queries\<close>

text \<open>Lookup of a row by primary key; \<open>None\<close> stands for \<^verbatim>\<open>DoesNotExist\<close>.\<close>

definition get_product :: "product list \<Rightarrow> int \<Rightarrow> product option" where
  "get_product tbl k = find (\<lambda>p. p_id p = k) tbl"

definition get_invoice :: "invoice list \<Rightarrow> int \<Rightarrow> invoice option" where
  "get_invoice tbl k = find (\<lambda>i. i_id i = k) tbl"

text \<open>\<^verbatim>\<open>[int(id) for id in cart.keys() if id.isdigit()]\<close>\<close>

definition product_ids :: "cart \<Rightarrow> int list" where
  "product_ids cart = map fst (filter (\<lambda>kv. 0 \<le> fst kv) cart)"

text \<open>\<^verbatim>\<open>Product.objects.filter(id__in=product_ids)\<close>\<close>

definition filter_id_in :: "product list \<Rightarrow> int list \<Rightarrow> product list" where
  "filter_id_in tbl ids = filter (\<lambda>p. p_id p \<in> set ids) tbl"

text \<open>\<^verbatim>\<open>obj.save()\<close> of a row that has a primary key: the row with that key is replaced.\<close>

definition save_product :: "product \<Rightarrow> db \<Rightarrow> db" where
  "save_product p d = d\<lparr>products := map (\<lambda>q. if p_id q = p_id p then p else q) (products d)\<rparr>"

definition save_invoice :: "invoice \<Rightarrow> db \<Rightarrow> db" where
  "save_invoice i d = d\<lparr>invoices := map (\<lambda>j. if i_id j = i_id i then i else j) (invoices d)\<rparr>"

definition save_payment :: "payment \<Rightarrow> db \<Rightarrow> db" where
  "save_payment p d = d\<lparr>payments := map (\<lambda>q. if pay_id q = pay_id p then p else q) (payments d)\<rparr>"

text \<open>
  The primary key given to a new row. Any key not yet in the table would do; the model
  takes the successor of the largest key, and 1 in an empty table.
\<close>

definition fresh_id :: "int list \<Rightarrow> int" where
  "fresh_id ids = fold max ids 0 + 1"

text \<open>\<^verbatim>\<open>Invoice.objects.aggregate(Max('number'))['number__max']\<close>: NULLs are ignored.\<close>

definition number_max :: "invoice list \<Rightarrow> int option" where
  "number_max tbl =
     (case List.map_filter i_number tbl of [] \<Rightarrow> None | n # ns \<Rightarrow> Some (fold max ns n))"

section \<open>Pricing engine (store/core/views.py)\<close>

fun total_loop :: "product list \<Rightarrow> cart \<Rightarrow> rat \<Rightarrow> rat" where
  "total_loop product_map [] tot = tot"
| "total_loop product_map ((id_str, count) # rest) tot =
     (case get_product product_map id_str of
        None \<Rightarrow> total_loop product_map rest tot
      | Some product \<Rightarrow>
          (let discount = p_discount product;
               price = of_int (p_price product);
               count' = (if 0 \<le> count then count else 0)
           in total_loop product_map rest (tot + price * (1 - discount / 100) * of_int count')))"

definition get_cart_total_price :: "db \<Rightarrow> cart \<Rightarrow> rat" where
  "get_cart_total_price d cart =
     (if cart = [] then 0
      else if product_ids cart = [] then 0
      else py_round2 (total_loop (filter_id_in (products d) (product_ids cart)) cart 0))"

record cart_item =
  ci_product :: product
  ci_count :: int
  ci_price :: rat
  ci_discount :: rat
  ci_total :: rat

fun prepare_loop :: "product list \<Rightarrow> cart \<Rightarrow> cart_item list \<Rightarrow> int \<Rightarrow> cart_item list \<times> int" where
  "prepare_loop prods [] cart_items subtotal = (cart_items, subtotal)"
| "prepare_loop prods ((item_id, count) # rest) cart_items subtotal =
     (case get_product prods item_id of
        None \<Rightarrow> prepare_loop prods rest cart_items subtotal
      | Some product \<Rightarrow>
          (let item_total = of_int (p_price product) * of_int count * (1 - p_discount product / 100)
           in prepare_loop prods rest
                (cart_items @
                   [\<lparr>ci_product = product, ci_count = count, ci_price = of_int (p_price product),
                     ci_discount = p_discount product, ci_total = item_total\<rparr>])
                (subtotal + p_price product * count)))"

text \<open>The result is \<^verbatim>\<open>(cart_items, subtotal, discount_total, vat_amount, total)\<close>.\<close>

definition prepare_cart_data :: "db \<Rightarrow> cart \<Rightarrow> cart_item list \<times> rat \<times> rat \<times> rat \<times> rat" where
  "prepare_cart_data d cart =
     (let prods = filter_id_in (products d) (product_ids cart);
          (cart_items, subtotal) = prepare_loop prods cart [] 0;
          discount_total = of_int subtotal - sum_list (map ci_total cart_items);
          vat_rate = 9;
          vat_amount = (of_int subtotal - discount_total) * vat_rate / 100;
          tot = (of_int subtotal - discount_total) + vat_amount
      in (cart_items, of_int subtotal, discount_total, vat_amount, tot))"

section \<open>Requests, gateway and responses\<close>

record user =
  u_id :: int
  u_email :: string

text \<open>
  The bound \<^verbatim>\<open>InvoiceForm\<close>: the verdict of Django's form validation and the cleaned
  fields \<^verbatim>\<open>address\<close> and \<^verbatim>\<open>description\<close>.
\<close>

record invoice_form =
  f_is_valid :: bool
  f_address :: string
  f_description :: "string option"

record request_meta =
  HTTP_X_FORWARDED_FOR :: "string option"
  REMOTE_ADDR :: "string option"

text \<open>
  The bodies sent to the gateway, without their constant fields (merchant id, currency,
  callback URL). \<open>rd_invoice\<close> is the invoice id of \<^verbatim>\<open>f'invoice, No. {invoice.id}'\<close>.
\<close>

record request_data =
  rd_amount :: int
  rd_invoice :: int
  rd_email :: string

record verify_data =
  vd_amount :: int
  vd_authority :: string

text \<open>
  What \<^verbatim>\<open>requests.post(...)\<close> followed by \<^verbatim>\<open>.json()\<close> gives: an exception of the
  \<^verbatim>\<open>requests\<close> library, or the decoded body.
\<close>

datatype gateway_reply = RequestFailed | Body pyval

datatype response =
    CheckoutPage
  | CheckoutErrorPage err_text
  | RedirectStartPay string
  | PaymentFailed string
  | PaymentSuccess pyval int
  | ServerError py_exn

text \<open>
  \<open>RedirectStartPay t\<close> is the redirect to \<^verbatim>\<open>f"{ZARINPAL_START_PAY_URL}{authority}"\<close>, with
  \<open>t\<close> the text of the authority.

  The effect of one request: the response (\<open>ServerError\<close> for an exception that leaves
  the view), the database and the session cart after it, and the requests sent to the
  gateway. The views open no transaction, so every \<^verbatim>\<open>save()\<close> stays when a later
  statement raises.
\<close>

record 'req result =
  r_response :: response
  r_db :: db
  r_cart :: cart
  r_sent :: "'req list"

definition get_user_ip :: "request_meta \<Rightarrow> string option" where
  "get_user_ip meta =
     (case HTTP_X_FORWARDED_FOR meta of
        None \<Rightarrow> REMOTE_ADDR meta
      | Some x_forwarded_for \<Rightarrow>
          if x_forwarded_for \<noteq> [] then Some (takeWhile (\<lambda>c. c \<noteq> CHR '','') x_forwarded_for)
          else REMOTE_ADDR meta)"

section \<open>Invoice builder and authorize (CheckoutCartView.post)\<close>

fun items_loop :: "product list \<Rightarrow> int \<Rightarrow> cart \<Rightarrow> invoice_item list \<Rightarrow> py_exn + invoice_item list" where
  "items_loop items invoice_id [] invoice_item = Inr invoice_item"
| "items_loop items invoice_id ((item_id, item_count) # rest) invoice_item =
     (case get_product items item_id of
        None \<Rightarrow> Inl DoesNotExist
      | Some obj \<Rightarrow>
          items_loop items invoice_id rest
            (invoice_item @
               [\<lparr>ii_product = p_id obj, ii_invoice = invoice_id, ii_count = item_count,
                 ii_price = of_int (p_price obj), ii_discount = p_discount obj,
                 ii_total = of_int (p_price obj) * of_int item_count * (1 - p_discount obj / 100),
                 ii_name = p_name obj\<rparr>]))"

text \<open>
  \<^verbatim>\<open>payment.save()\<close> of a new row. The character columns get the text of the value
  assigned (\<^verbatim>\<open>CharField.to_python\<close>); \<^verbatim>\<open>None\<close> is sent as NULL and has no text.
\<close>

definition column_text :: "pyval \<Rightarrow> string" where
  "column_text v = (if v = PNone then [] else py_str v)"

text \<open>
  What the INSERT of a payment raises, if anything (the views import
  \<^verbatim>\<open>django.contrib.postgres\<close>, so the database is PostgreSQL):
  \<^item> \<^verbatim>\<open>ValueError\<close> of the driver for a text with a NUL character, before the statement
    is sent;
  \<^item> \<^verbatim>\<open>DataError\<close> for a text wider than its column: 255 characters for \<^verbatim>\<open>ref\<close> and
    \<^verbatim>\<open>authority\<close>, 20 for \<^verbatim>\<open>user_ip\<close>, 50 for \<^verbatim>\<open>error_code\<close> (\<^verbatim>\<open>status\<close> always fits
    its 20, \<^verbatim>\<open>description\<close> and \<^verbatim>\<open>error_message\<close> are TextFields);
  \<^item> \<^verbatim>\<open>IntegrityError\<close> for the authority \<^verbatim>\<open>None\<close>: the column is NOT NULL, the other
    character columns written from the reply of the gateway may be NULL.

  The text \<^verbatim>\<open>f'error in connection to zarinpal: {str(e)}'\<close> has no NUL character.
\<close>

definition db_error :: "payment \<Rightarrow> py_exn option" where
  "db_error p =
     (let ref = column_text (pay_ref p);
          authority = column_text (pay_authority p);
          user_ip = (case pay_user_ip p of None \<Rightarrow> [] | Some ip \<Rightarrow> ip);
          error_code = column_text (pay_error_code p);
          error_message =
            (case pay_error_message p of GatewayText msg \<Rightarrow> column_text msg | _ \<Rightarrow> [])
      in if CHR 0x00 \<in> set (ref @ authority @ pay_description p @ user_ip @ error_code @
                                error_message)
         then Some ValueError
         else if 255 < length ref \<or> 255 < length authority \<or> 20 < length user_ip \<or>
                 50 < length error_code
         then Some DataError
         else if pay_authority p = PNone then Some IntegrityError
         else None)"

text \<open>
  A refused INSERT leaves no row. Otherwise the row gets a new primary key and the texts
  of the values assigned to its character columns.
\<close>

definition insert_payment :: "payment \<Rightarrow> db \<Rightarrow> py_exn + db" where
  "insert_payment p d =
     (case db_error p of
        Some e \<Rightarrow> Inl e
      | None \<Rightarrow>
          Inr (d\<lparr>payments := payments d @
                  [p\<lparr>pay_id := fresh_id (map pay_id (payments d)),
                     pay_ref := to_python (pay_ref p),
                     pay_authority := to_python (pay_authority p),
                     pay_error_code := to_python (pay_error_code p),
                     pay_error_message :=
                       (case pay_error_message p of
                          GatewayText msg \<Rightarrow> GatewayText (to_python msg)
                        | t \<Rightarrow> t)\<rparr>]\<rparr>))"

text \<open>
  The \<^verbatim>\<open>except Exception\<close> branch, for the payment object as it is when the exception is
  caught. An exception of its own \<^verbatim>\<open>payment.save()\<close> leaves the view.
\<close>

definition authorize_except :: "py_exn \<Rightarrow> payment \<Rightarrow> db \<Rightarrow> response \<times> db" where
  "authorize_except e payment d =
     (case insert_payment
             (payment\<lparr>pay_status := STATUS_ERROR, pay_error_message := ConnectionText e\<rparr>) d of
        Inl e' \<Rightarrow> (ServerError e', d)
      | Inr d' \<Rightarrow> (CheckoutErrorPage (ConnectionText e), d'))"

text \<open>
  What the body of the \<^verbatim>\<open>try\<close> reads from the reply of the gateway, before it assigns
  to the payment: the authority of a reply with the code 100, the error code and the error
  message of any other reply, or the exception of a read (of the request itself, of
  \<^verbatim>\<open>.get\<close> on a value that is no dict, of a missing key).
\<close>

datatype reply_kind = Authorized pyval | Declined pyval pyval | Unreadable py_exn

definition read_reply :: "gateway_reply \<Rightarrow> reply_kind" where
  "read_reply reply =
     (case reply of
        RequestFailed \<Rightarrow> Unreadable RequestException
      | Body response_data \<Rightarrow>
          (case py_get response_data ''data'' (PDict []) of
             Inl e \<Rightarrow> Unreadable e
           | Inr data \<Rightarrow>
          (case py_get data ''code'' PNone of
             Inl e \<Rightarrow> Unreadable e
           | Inr code \<Rightarrow>
               if code = PInt 100 then
                 (case py_index response_data ''data'' of
                    Inl e \<Rightarrow> Unreadable e
                  | Inr data' \<Rightarrow>
                 (case py_index data' ''authority'' of
                    Inl e \<Rightarrow> Unreadable e
                  | Inr authority \<Rightarrow> Authorized authority))
               else
                 (case py_get response_data ''errors'' (PDict []) of
                    Inl e \<Rightarrow> Unreadable e
                  | Inr errors \<Rightarrow>
                 (case py_get errors ''code'' (PStr ''Unknown'') of
                    Inl e \<Rightarrow> Unreadable e
                  | Inr error_code \<Rightarrow>
                 (case py_get response_data ''errors'' (PDict []) of
                    Inl e \<Rightarrow> Unreadable e
                  | Inr errors' \<Rightarrow>
                 (case py_get errors' ''message'' (PStr ''unknown error in payment'') of
                    Inl e \<Rightarrow> Unreadable e
                  | Inr error_message \<Rightarrow> Declined error_code error_message)))))))"

text \<open>
  The body of the \<^verbatim>\<open>try\<close>, from the reply of the gateway on. An exception of
  \<^verbatim>\<open>payment.save()\<close> is caught like any other, with the payment object as assigned so far.
\<close>

definition authorize_reply :: "gateway_reply \<Rightarrow> payment \<Rightarrow> db \<Rightarrow> response \<times> db" where
  "authorize_reply reply payment d =
     (case read_reply reply of
        Unreadable e \<Rightarrow> authorize_except e payment d
      | Authorized authority \<Rightarrow>
          (case insert_payment (payment\<lparr>pay_authority := authority\<rparr>) d of
             Inl e \<Rightarrow> authorize_except e (payment\<lparr>pay_authority := authority\<rparr>) d
           | Inr d' \<Rightarrow> (RedirectStartPay (py_str authority), d'))
      | Declined error_code error_message \<Rightarrow>
          (case insert_payment
                  (payment\<lparr>pay_status := STATUS_ERROR,
                           pay_error_code := PStr (py_str error_code),
                           pay_error_message := GatewayText error_message\<rparr>) d of
             Inl e \<Rightarrow>
               authorize_except e
                 (payment\<lparr>pay_status := STATUS_ERROR,
                          pay_error_code := PStr (py_str error_code),
                          pay_error_message := GatewayText error_message\<rparr>) d
           | Inr d' \<Rightarrow> (CheckoutErrorPage (GatewayText error_message), d')))"

text \<open>
  A text that a column of the given width takes: no wider, and without a NUL character.
\<close>

definition fits :: "nat \<Rightarrow> string \<Rightarrow> bool" where
  "fits w s \<longleftrightarrow> length s \<le> w \<and> CHR 0x00 \<notin> set s"

text \<open>
  The invoice of the form with \<^verbatim>\<open>user\<close> and \<^verbatim>\<open>total\<close> set, as \<^verbatim>\<open>invoice.save()\<close> inserts
  it: \<^verbatim>\<open>number\<close>, \<^verbatim>\<open>discount\<close> and \<^verbatim>\<open>vat\<close> have the defaults of the model.
\<close>

definition new_invoice :: "invoice_form \<Rightarrow> user \<Rightarrow> cart \<Rightarrow> db \<Rightarrow> invoice" where
  "new_invoice form usr cart d =
     \<lparr>i_id = fresh_id (map i_id (invoices d)), i_number = None, i_user = u_id usr,
      i_total = get_cart_total_price d cart, i_discount = 0,
      i_description = f_description form, i_address = f_address form, i_vat = 9\<rparr>"

text \<open>
  \<^verbatim>\<open>Payment()\<close> with \<^verbatim>\<open>invoice\<close>, \<^verbatim>\<open>total\<close> and \<^verbatim>\<open>user_ip\<close> set; it has no primary key
  before it is saved.
\<close>

definition new_payment :: "invoice \<Rightarrow> request_meta \<Rightarrow> payment" where
  "new_payment invoice meta =
     (let total0 = i_total invoice * (1 - i_discount invoice / 100);
          total1 = total0 + (i_vat invoice / 100) * total0
      in \<lparr>pay_id = 0, pay_invoice = i_id invoice, pay_total = total1, pay_ref = PNone,
          pay_status = STATUS_PENDING, pay_authority = PStr [], pay_description = [],
          pay_user_ip = get_user_ip meta, pay_error_code = PNone,
          pay_error_message = NoText\<rparr>)"

definition CheckoutCartView_post ::
  "(request_data \<Rightarrow> gateway_reply) \<Rightarrow> invoice_form \<Rightarrow> user \<Rightarrow> request_meta \<Rightarrow> cart \<Rightarrow> db
     \<Rightarrow> request_data result" where
  "CheckoutCartView_post gateway form usr meta cart d =
     (if \<not> f_is_valid form
      then \<lparr>r_response = CheckoutPage, r_db = d, r_cart = cart, r_sent = []\<rparr>
      else
        let invoice = new_invoice form usr cart d;
            d1 = d\<lparr>invoices := invoices d @ [invoice]\<rparr>;
            items = filter_id_in (products d1) (product_ids cart)
        in (case items_loop items (i_id invoice) cart [] of
             Inl e \<Rightarrow> \<lparr>r_response = ServerError e, r_db = d1, r_cart = cart, r_sent = []\<rparr>
           | Inr invoice_item \<Rightarrow>
              (let d2 = d1\<lparr>invoice_items := invoice_items d1 @ invoice_item\<rparr>;
                   payment = new_payment invoice meta;
                   request = \<lparr>rd_amount = py_int (pay_total payment),
                              rd_invoice = i_id invoice, rd_email = u_email usr\<rparr>;
                   (resp, d3) = authorize_reply (gateway request) payment d2
               in \<lparr>r_response = resp, r_db = d3, r_cart = cart, r_sent = [request]\<rparr>)))"

section \<open>Settlement (VerifyView.get)\<close>

text \<open>The stock loop; an exception leaves the rows saved so far.\<close>

fun stock_loop :: "invoice_item list \<Rightarrow> db \<Rightarrow> py_exn option \<times> db" where
  "stock_loop [] d = (None, d)"
| "stock_loop (item # rest) d =
     (case get_product (products d) (ii_product item) of
        None \<Rightarrow> (Some DoesNotExist, d)
      | Some product \<Rightarrow>
          stock_loop rest (save_product (product\<lparr>p_count := p_count product - ii_count item\<rparr>) d))"

text \<open>\<^verbatim>\<open>(max_number or 0) + 1\<close>\<close>

definition next_number :: "int option \<Rightarrow> int" where
  "next_number max_number =
     (case max_number of None \<Rightarrow> 0 | Some m \<Rightarrow> if m = 0 then 0 else m) + 1"

text \<open>The view from the decoded reply of the gateway on.\<close>

definition verify_reply ::
  "pyval \<Rightarrow> payment \<Rightarrow> verify_data \<Rightarrow> cart \<Rightarrow> db \<Rightarrow> verify_data result" where
  "verify_reply verify_result payment vd cart d =
     (case py_get verify_result ''data'' PNone of
        Inl e \<Rightarrow> \<lparr>r_response = ServerError e, r_db = d, r_cart = cart, r_sent = [vd]\<rparr>
      | Inr data \<Rightarrow>
     (case py_get data ''code'' PNone of
        Inl e \<Rightarrow> \<lparr>r_response = ServerError e, r_db = d, r_cart = cart, r_sent = [vd]\<rparr>
      | Inr code \<Rightarrow>
          if code = PInt 100 then
            (case py_index verify_result ''data'' of
               Inl e \<Rightarrow> \<lparr>r_response = ServerError e, r_db = d, r_cart = cart, r_sent = [vd]\<rparr>
             | Inr data' \<Rightarrow>
            (case py_index data' ''ref_id'' of
               Inl e \<Rightarrow> \<lparr>r_response = ServerError e, r_db = d, r_cart = cart, r_sent = [vd]\<rparr>
             | Inr ref_id \<Rightarrow>
                 let payment' = payment\<lparr>pay_ref := ref_id, pay_status := STATUS_DONE\<rparr>;
                     d1 = save_payment payment' d
                 in (case get_invoice (invoices d1) (pay_invoice payment') of
                      None \<Rightarrow> \<lparr>r_response = ServerError DoesNotExist, r_db = d1, r_cart = cart,
                                r_sent = [vd]\<rparr>
                    | Some invoice \<Rightarrow>
                        (let invoice' =
                              (if i_number invoice = None
                               then invoice\<lparr>i_number := Some (next_number (number_max (invoices d1)))\<rparr>
                               else invoice);
                            its = filter (\<lambda>it. ii_invoice it = i_id invoice') (invoice_items d1)
                         in (case stock_loop its d1 of
                             (Some e, d2) \<Rightarrow>
                               \<lparr>r_response = ServerError e, r_db = d2, r_cart = cart, r_sent = [vd]\<rparr>
                           | (None, d2) \<Rightarrow>
                               \<lparr>r_response = PaymentSuccess ref_id (py_int (pay_total payment')),
                                r_db = save_invoice invoice' d2, r_cart = [], r_sent = [vd]\<rparr>)))))
          else \<lparr>r_response = PaymentFailed ''Payment not verified!!'',
                r_db = save_payment (payment\<lparr>pay_status := STATUS_ERROR\<rparr>) d,
                r_cart = cart, r_sent = [vd]\<rparr>))"

text \<open>
  \<open>status\<close> and \<open>authority\<close> are the query parameters \<^verbatim>\<open>Status\<close> and \<^verbatim>\<open>Authority\<close>,
  \<open>None\<close> when absent.
\<close>

definition VerifyView_get ::
  "(verify_data \<Rightarrow> gateway_reply) \<Rightarrow> string option \<Rightarrow> string option \<Rightarrow> cart \<Rightarrow> db
     \<Rightarrow> verify_data result" where
  "VerifyView_get gateway status authority cart d =
     (case authority of
        None \<Rightarrow> \<lparr>r_response = PaymentFailed ''Payment was cancelled!'', r_db = d,
                  r_cart = cart, r_sent = []\<rparr>
      | Some a \<Rightarrow>
          if a = [] then \<lparr>r_response = PaymentFailed ''Payment was cancelled!'', r_db = d,
                          r_cart = cart, r_sent = []\<rparr>
          else
            (case filter (\<lambda>p. pay_authority p = PStr a \<and> pay_status p = STATUS_PENDING)
                    (payments d) of
               [] \<Rightarrow> \<lparr>r_response = PaymentFailed ''There is no payment document!'', r_db = d,
                       r_cart = cart, r_sent = []\<rparr>
             | payment # others \<Rightarrow>
                 if others \<noteq> [] then
                   \<lparr>r_response = ServerError MultipleObjectsReturned, r_db = d, r_cart = cart,
                    r_sent = []\<rparr>
                 else if status \<noteq> Some ''OK'' then
                   \<lparr>r_response = PaymentFailed ''Payment was canceled by the user.'',
                    r_db = save_payment (payment\<lparr>pay_status := STATUS_ERROR\<rparr>) d,
                    r_cart = cart, r_sent = []\<rparr>
                 else
                   (let vd = \<lparr>vd_amount = py_int (pay_total payment), vd_authority = a\<rparr>
                    in (case gateway vd of
                        RequestFailed \<Rightarrow>
                          \<lparr>r_response = PaymentFailed ''Network error!'', r_db = d,
                           r_cart = cart, r_sent = [vd]\<rparr>
                      | Body verify_result \<Rightarrow> verify_reply verify_result payment vd cart d))))"

section \<open>The order book over time\<close>

text \<open>
  The databases that arise from one without orders by checkout submissions and verify
  callbacks, in any order and with any replies of the gateway. Between them the catalogue
  may change in any way that keeps the products of the invoice items
  (\<^verbatim>\<open>InvoiceItem.product\<close> is a foreign key with \<^verbatim>\<open>on_delete=PROTECT\<close>).
\<close>

inductive reachable :: "db \<Rightarrow> bool" where
  start: "invoices d = [] \<Longrightarrow> invoice_items d = [] \<Longrightarrow> payments d = [] \<Longrightarrow> reachable d"
| catalogue: "reachable d \<Longrightarrow> ii_product ` set (invoice_items d) \<subseteq> p_id ` set ps \<Longrightarrow>
     reachable (d\<lparr>products := ps\<rparr>)"
| checkout: "reachable d \<Longrightarrow>
     reachable (r_db (CheckoutCartView_post gateway form usr meta cart d))"
| verify: "reachable d \<Longrightarrow>
     reachable (r_db (VerifyView_get gateway status authority cart d))"

text \<open>
  The key constraints of \<^verbatim>\<open>models.py\<close>: the primary keys of invoices and payments are
  unique, \<^verbatim>\<open>Payment.invoice\<close> is a OneToOneField to an invoice, and
  \<^verbatim>\<open>InvoiceItem.product\<close> is a foreign key to a product.
\<close>

definition keys_ok :: "db \<Rightarrow> bool" where
  "keys_ok d \<longleftrightarrow>
     distinct (map i_id (invoices d)) \<and>
     distinct (map pay_id (payments d)) \<and>
     distinct (map pay_invoice (payments d)) \<and>
     pay_invoice ` set (payments d) \<subseteq> i_id ` set (invoices d) \<and>
     ii_product ` set (invoice_items d) \<subseteq> p_id ` set (products d)"

text \<open>
  The state of the invoice numbers: every number is positive, no two rows have the same
  number, the invoice of every payment that is done has a number, and every invoice with
  a number has a payment that is done.
\<close>

definition numbers_ok :: "db \<Rightarrow> bool" where
  "numbers_ok d \<longleftrightarrow>
     (\<forall>k < length (invoices d). \<forall>n. i_number (invoices d ! k) = Some n \<longrightarrow> 0 < n) \<and>
     (\<forall>k < length (invoices d). \<forall>k' < length (invoices d). \<forall>n.
        i_number (invoices d ! k) = Some n \<and> i_number (invoices d ! k') = Some n \<longrightarrow> k = k') \<and>
     (\<forall>j < length (payments d). pay_status (payments d ! j) = STATUS_DONE \<longrightarrow>
        (\<exists>k < length (invoices d). i_id (invoices d ! k) = pay_invoice (payments d ! j) \<and>
           i_number (invoices d ! k) \<noteq> None)) \<and>
     (\<forall>k < length (invoices d). i_number (invoices d ! k) \<noteq> None \<longrightarrow>
        (\<exists>j < length (payments d). pay_invoice (payments d ! j) = i_id (invoices d ! k) \<and>
           pay_status (payments d ! j) = STATUS_DONE))"

section \<open>Scenario data\<close>

text \<open>
  The state after a checkout of the cart {"5": 2}: product 5 (price 100, discount 10, ten
  in stock), invoice 1 with its line, and its pending payment under the authority A1.
\<close>

definition tea :: product where
  "tea = \<lparr>p_id = 5, p_name = ''tea'', p_price = 100, p_discount = 10, p_enabled = True,
          p_count = 10\<rparr>"

definition tea_invoice :: invoice where
  "tea_invoice = \<lparr>i_id = 1, i_number = None, i_user = 1, i_total = 180, i_discount = 0,
                  i_description = None, i_address = ''12 Hill Road'', i_vat = 9\<rparr>"

definition tea_line :: invoice_item where
  "tea_line = \<lparr>ii_product = 5, ii_invoice = 1, ii_count = 2, ii_price = 100, ii_discount = 10,
               ii_total = 180, ii_name = ''tea''\<rparr>"

definition tea_payment :: payment where
  "tea_payment = \<lparr>pay_id = 1, pay_invoice = 1, pay_total = 1962 / 10, pay_ref = PNone,
                  pay_status = STATUS_PENDING, pay_authority = PStr ''A1'',
                  pay_description = [], pay_user_ip = Some ''10.0.0.7'',
                  pay_error_code = PNone, pay_error_message = NoText\<rparr>"

definition shop :: db where
  "shop = \<lparr>products = [tea], invoices = [], invoice_items = [], payments = []\<rparr>"

definition shop_pending :: db where
  "shop_pending = \<lparr>products = [tea], invoices = [tea_invoice], invoice_items = [tea_line],
                   payments = [tea_payment]\<rparr>"

text \<open>
  A second order of the same buyer, for the cart {"5": 1}: invoice 2 with its line and its
  pending payment under the authority A2.
\<close>

definition tea_invoice_2 :: invoice where
  "tea_invoice_2 = \<lparr>i_id = 2, i_number = None, i_user = 1, i_total = 90, i_discount = 0,
                    i_description = None, i_address = ''12 Hill Road'', i_vat = 9\<rparr>"

definition tea_line_2 :: invoice_item where
  "tea_line_2 = \<lparr>ii_product = 5, ii_invoice = 2, ii_count = 1, ii_price = 100, ii_discount = 10,
                 ii_total = 90, ii_name = ''tea''\<rparr>"

definition tea_payment_2 :: payment where
  "tea_payment_2 = \<lparr>pay_id = 2, pay_invoice = 2, pay_total = 981 / 10, pay_ref = PNone,
                    pay_status = STATUS_PENDING, pay_authority = PStr ''A2'',
                    pay_description = [], pay_user_ip = Some ''10.0.0.7'',
                    pay_error_code = PNone, pay_error_message = NoText\<rparr>"

definition shop_two_pending :: db where
  "shop_two_pending =
     \<lparr>products = [tea], invoices = [tea_invoice, tea_invoice_2],
      invoice_items = [tea_line, tea_line_2], payments = [tea_payment, tea_payment_2]\<rparr>"

text \<open>A checkout submission: a valid form, the buyer and the address of the request.\<close>

definition valid_form :: invoice_form where
  "valid_form = \<lparr>f_is_valid = True, f_address = ''12 Hill Road'', f_description = None\<rparr>"

definition buyer :: user where
  "buyer = \<lparr>u_id = 1, u_email = ''buyer@example.org''\<rparr>"

definition buyer_meta :: request_meta where
  "buyer_meta = \<lparr>HTTP_X_FORWARDED_FOR = None, REMOTE_ADDR = Some ''10.0.0.7''\<rparr>"

text \<open>
  Gateway replies: authorized under the authority A1, under the authority A2, authorized
  with the authority \<^verbatim>\<open>null\<close>, verified with reference 777, and an errors-shaped body.
\<close>

definition reply_authorized :: pyval where
  "reply_authorized = PDict [(''data'', PDict [(''code'', PInt 100), (''authority'', PStr ''A1'')])]"

definition reply_authorized_2 :: pyval where
  "reply_authorized_2 =
     PDict [(''data'', PDict [(''code'', PInt 100), (''authority'', PStr ''A2'')])]"


definition reply_verified :: pyval where
  "reply_verified = PDict [(''data'', PDict [(''code'', PInt 100), (''ref_id'', PInt 777)])]"

definition reply_errors :: pyval where
  "reply_errors = PDict [(''errors'', PDict [(''code'', PInt (- 9)),
                                              (''message'', PStr ''bad merchant'')])]"

section \<open>Properties of the cart store\<close>

lemma map_of_dict_set: "map_of (dict_set d k v) = (map_of d)(k \<mapsto> v)"
  by (induction d) (auto simp: fun_upd_twist)

lemma dict_get_dict_set:
  "dict_get (dict_set d k v) k' dflt = (if k' = k then v else dict_get d k' dflt)"
  by (simp add: dict_get_def map_of_dict_set)

lemma filter_dict_set:
  "filter (\<lambda>kv. fst kv \<noteq> k) (dict_set d k v) = filter (\<lambda>kv. fst kv \<noteq> k) d"
  by (induction d) auto

text \<open>
  C10. \<^verbatim>\<open>add_to_cart\<close> leaves the cart as it is when the product's stock count is at most
  zero or the product is not enabled. Otherwise the quantity stored under the product's
  key becomes the old quantity plus one (one, when the key was absent), and the entries
  under every other key are the same, in the same order.
\<close>

theorem add_to_cart_spec:
  "(p_count obj \<le> 0 \<or> \<not> p_enabled obj \<longrightarrow> add_to_cart cart obj = cart) \<and>
   (0 < p_count obj \<and> p_enabled obj \<longrightarrow>
      map_of (add_to_cart cart obj) (p_id obj) =
        Some ((case map_of cart (p_id obj) of None \<Rightarrow> 0 | Some c \<Rightarrow> c) + 1) \<and>
      (\<forall>k. k \<noteq> p_id obj \<longrightarrow> map_of (add_to_cart cart obj) k = map_of cart k) \<and>
      filter (\<lambda>kv. fst kv \<noteq> p_id obj) (add_to_cart cart obj) =
        filter (\<lambda>kv. fst kv \<noteq> p_id obj) cart)"
  by (auto simp: add_to_cart_def map_of_dict_set dict_get_def filter_dict_set)

theorem add_to_cart_spec_witness:
  "add_to_cart [(5, 2), (8, 1)]
     \<lparr>p_id = 5, p_name = ''tea'', p_price = 100, p_discount = 10, p_enabled = True, p_count = 0\<rparr>
     = [(5, 2), (8, 1)] \<and>
   add_to_cart [(5, 2), (8, 1)]
     \<lparr>p_id = 5, p_name = ''tea'', p_price = 100, p_discount = 10, p_enabled = False, p_count = 3\<rparr>
     = [(5, 2), (8, 1)] \<and>
   map_of (add_to_cart [(5, 2), (8, 1)]
     \<lparr>p_id = 5, p_name = ''tea'', p_price = 100, p_discount = 10, p_enabled = True, p_count = 3\<rparr>) 5
     = Some 3 \<and>
   map_of (add_to_cart [(5, 2), (8, 1)]
     \<lparr>p_id = 9, p_name = ''cup'', p_price = 40, p_discount = 0, p_enabled = True, p_count = 1\<rparr>) 9
     = Some 1 \<and>
   map_of (add_to_cart [(5, 2), (8, 1)]
     \<lparr>p_id = 5, p_name = ''tea'', p_price = 100, p_discount = 10, p_enabled = True, p_count = 3\<rparr>) 8
     = Some 1"
  using
    add_to_cart_spec [of "\<lparr>p_id = 5, p_name = ''tea'', p_price = 100, p_discount = 10,
                           p_enabled = True, p_count = 0\<rparr>" "[(5, 2), (8, 1)]"]
    add_to_cart_spec [of "\<lparr>p_id = 5, p_name = ''tea'', p_price = 100, p_discount = 10,
                           p_enabled = False, p_count = 3\<rparr>" "[(5, 2), (8, 1)]"]
    add_to_cart_spec [of "\<lparr>p_id = 5, p_name = ''tea'', p_price = 100, p_discount = 10,
                           p_enabled = True, p_count = 3\<rparr>" "[(5, 2), (8, 1)]"]
    add_to_cart_spec [of "\<lparr>p_id = 9, p_name = ''cup'', p_price = 40, p_discount = 0,
                           p_enabled = True, p_count = 1\<rparr>" "[(5, 2), (8, 1)]"]
  by simp

section \<open>Properties of the pricing engine\<close>

lemma get_product_Some: "get_product tbl k = Some p \<Longrightarrow> p_id p = k \<and> p \<in> set tbl"
  by (auto simp: get_product_def find_Some_iff)

lemma get_product_None: "get_product tbl k = None \<longleftrightarrow> k \<notin> p_id ` set tbl"
  by (auto simp: get_product_def find_None_iff)

lemma get_product_defined: "(\<exists>p. get_product tbl k = Some p) \<longleftrightarrow> k \<in> p_id ` set tbl"
  using get_product_None[of tbl k] by auto

lemma get_product_filter_id_in:
  "get_product (filter_id_in tbl ids) k = (if k \<in> set ids then get_product tbl k else None)"
  by (induction tbl) (auto simp: get_product_def filter_id_in_def)

lemma key_in_product_ids: "(k, c) \<in> set cart \<Longrightarrow> k \<in> set (product_ids cart) \<longleftrightarrow> 0 \<le> k"
  by (force simp: product_ids_def)

lemma prepare_loop_acc:
  "prepare_loop prods cart acc s = (cart_items, subtotal) \<Longrightarrow>
   \<exists>new. cart_items = acc @ new \<and>
     of_int subtotal = (of_int s :: rat) + sum_list (map (\<lambda>it. ci_price it * of_int (ci_count it)) new) \<and>
     map (\<lambda>it. (p_id (ci_product it), ci_count it)) new =
       filter (\<lambda>kv. get_product prods (fst kv) \<noteq> None) cart \<and>
     (\<forall>it \<in> set new. (ci_price it = of_int (p_price (ci_product it)) \<and>
        ci_discount it = p_discount (ci_product it) \<and>
        ci_total it = ci_price it * of_int (ci_count it) * (1 - ci_discount it / 100)) \<and> ci_product it \<in> set prods)"
proof (induction cart arbitrary: acc s)
  case Nil
  then show ?case by simp
next
  case (Cons kv rest)
  obtain k c where kv: "kv = (k, c)" by (cases kv)
  show ?case
  proof (cases "get_product prods k")
    case None
    with Cons.prems kv have "prepare_loop prods rest acc s = (cart_items, subtotal)" by simp
    from Cons.IH[OF this] None kv show ?thesis by simp
  next
    case (Some p)
    let ?it = "\<lparr>ci_product = p, ci_count = c, ci_price = of_int (p_price p),
                 ci_discount = p_discount p,
                 ci_total = of_int (p_price p) * of_int c * (1 - p_discount p / 100)\<rparr>"
    from Cons.prems kv Some
    have "prepare_loop prods rest (acc @ [?it]) (s + p_price p * c) = (cart_items, subtotal)"
      by (simp add: Let_def)
    from Cons.IH[OF this] obtain new where new:
      "cart_items = (acc @ [?it]) @ new"
      "of_int subtotal = (of_int (s + p_price p * c) :: rat) + sum_list (map (\<lambda>it. ci_price it * of_int (ci_count it)) new)"
      "map (\<lambda>it. (p_id (ci_product it), ci_count it)) new =
         filter (\<lambda>kv. get_product prods (fst kv) \<noteq> None) rest"
      "\<forall>it \<in> set new. (ci_price it = of_int (p_price (ci_product it)) \<and>
        ci_discount it = p_discount (ci_product it) \<and>
        ci_total it = ci_price it * of_int (ci_count it) * (1 - ci_discount it / 100)) \<and> ci_product it \<in> set prods"
      by blast
    from new Some kv get_product_Some[OF Some] show ?thesis
      by (intro exI[of _ "?it # new"]) simp
  qed
qed

lemma line_total_nonneg:
  fixes price discount :: rat
  assumes "0 \<le> price" "0 \<le> c" "discount \<le> 100"
  shows "0 \<le> price * of_int c * (1 - discount / 100)"
proof -
  from assms(3) have "0 \<le> 1 - discount / 100" by simp
  moreover from assms(1,2) have "0 \<le> price * of_int c" by simp
  ultimately show ?thesis by (rule mult_nonneg_nonneg[rotated])
qed

text \<open>
  C9 (amended). For every cart, the lines of \<^verbatim>\<open>prepare_cart_data\<close> are the cart entries
  whose key is the id of a product, in the cart's order, and
  \<^item> per line, the total is price * count * (1 - discount/100), with the price and the
    discount of the product;
  \<^item> the subtotal is the sum of price * count;
  \<^item> the discount total is the subtotal minus the sum of the line totals;
  \<^item> the VAT amount is (subtotal - discount total) * 9 / 100;
  \<^item> the grand total is (subtotal - discount total) + VAT amount;
  \<^item> the grand total is not negative when no product has a negative price or a discount
    above 100, and no quantity in the cart is negative;
  \<^item> for the cart {"5": 2} with product 5 at price 100 and discount 10, the line total is
    180, the subtotal 200, the discount total 20, the VAT amount 16.2 and the grand total
    196.2.
\<close>

theorem prepare_cart_data_pricing:
  assumes "prepare_cart_data d cart = (cart_items, subtotal, discount_total, vat_amount, tot)"
  shows
   "map (\<lambda>it. (p_id (ci_product it), ci_count it)) cart_items =
      filter (\<lambda>kv. 0 \<le> fst kv \<and> fst kv \<in> p_id ` set (products d)) cart \<and>
    (\<forall>it \<in> set cart_items.
       ci_product it \<in> set (products d) \<and>
       ci_price it = of_int (p_price (ci_product it)) \<and>
       ci_discount it = p_discount (ci_product it) \<and>
       ci_total it = ci_price it * of_int (ci_count it) * (1 - ci_discount it / 100)) \<and>
    subtotal = (\<Sum>it\<leftarrow>cart_items. ci_price it * of_int (ci_count it)) \<and>
    discount_total = subtotal - (\<Sum>it\<leftarrow>cart_items. ci_total it) \<and>
    vat_amount = (subtotal - discount_total) * 9 / 100 \<and>
    tot = (subtotal - discount_total) + vat_amount \<and>
    ((\<forall>p \<in> set (products d). 0 \<le> p_price p \<and> p_discount p \<le> 100) \<and>
     (\<forall>kv \<in> set cart. 0 \<le> snd kv) \<longrightarrow> 0 \<le> tot) \<and>
    prepare_cart_data
      \<lparr>products = [\<lparr>p_id = 5, p_name = nm, p_price = 100, p_discount = 10, p_enabled = en,
                     p_count = 10\<rparr>],
       invoices = invs, invoice_items = its, payments = pays\<rparr> [(5, 2)] =
      ([\<lparr>ci_product = \<lparr>p_id = 5, p_name = nm, p_price = 100, p_discount = 10, p_enabled = en,
                       p_count = 10\<rparr>,
         ci_count = 2, ci_price = 100, ci_discount = 10, ci_total = 180\<rparr>],
       200, 20, 162 / 10, 1962 / 10)"
proof -
  let ?prods = "filter_id_in (products d) (product_ids cart)"
  obtain sub where loop: "prepare_loop ?prods cart [] 0 = (cart_items, sub)"
    and subtotal: "subtotal = of_int sub"
    and disc: "discount_total = of_int sub - sum_list (map ci_total cart_items)"
    and vat: "vat_amount = (of_int sub - discount_total) * 9 / 100"
    and tot: "tot = (of_int sub - discount_total) + vat_amount"
    using assms by (auto simp: prepare_cart_data_def Let_def split: prod.splits)
  from prepare_loop_acc[OF loop]
  have sum: "of_int sub = (\<Sum>it\<leftarrow>cart_items. ci_price it * of_int (ci_count it))"
    and lines: "map (\<lambda>it. (p_id (ci_product it), ci_count it)) cart_items =
       filter (\<lambda>kv. get_product ?prods (fst kv) \<noteq> None) cart"
    and ok: "\<forall>it \<in> set cart_items. (ci_price it = of_int (p_price (ci_product it)) \<and>
        ci_discount it = p_discount (ci_product it) \<and>
        ci_total it = ci_price it * of_int (ci_count it) * (1 - ci_discount it / 100)) \<and> ci_product it \<in> set ?prods"
    by auto
  have "filter (\<lambda>kv. get_product ?prods (fst kv) \<noteq> None) cart =
        filter (\<lambda>kv. 0 \<le> fst kv \<and> fst kv \<in> p_id ` set (products d)) cart"
  proof (rule filter_cong[OF refl])
    fix kv assume "kv \<in> set cart"
    then have "fst kv \<in> set (product_ids cart) \<longleftrightarrow> 0 \<le> fst kv"
      using key_in_product_ids[of "fst kv" "snd kv" cart] by simp
    then show "(get_product ?prods (fst kv) \<noteq> None) =
               (0 \<le> fst kv \<and> fst kv \<in> p_id ` set (products d))"
      by (simp add: get_product_filter_id_in get_product_defined)
  qed
  with lines have c1: "map (\<lambda>it. (p_id (ci_product it), ci_count it)) cart_items =
      filter (\<lambda>kv. 0 \<le> fst kv \<and> fst kv \<in> p_id ` set (products d)) cart" by simp
  have c2: "\<forall>it \<in> set cart_items.
       ci_product it \<in> set (products d) \<and> (ci_price it = of_int (p_price (ci_product it)) \<and>
        ci_discount it = p_discount (ci_product it) \<and>
        ci_total it = ci_price it * of_int (ci_count it) * (1 - ci_discount it / 100))"
    using ok by (auto simp: filter_id_in_def)
  have c7: "0 \<le> tot"
    if P: "\<forall>p \<in> set (products d). 0 \<le> p_price p \<and> p_discount p \<le> 100"
    and C: "\<forall>kv \<in> set cart. 0 \<le> snd kv"
  proof -
    have cnt: "0 \<le> ci_count it" if "it \<in> set cart_items" for it
    proof -
      from that have "(p_id (ci_product it), ci_count it) \<in>
          set (map (\<lambda>it. (p_id (ci_product it), ci_count it)) cart_items)" by force
      with c1 have "(p_id (ci_product it), ci_count it) \<in> set cart" by simp
      with C show ?thesis by force
    qed
    have "0 \<le> ci_total it" if "it \<in> set cart_items" for it
    proof -
      from c2 that P have "0 \<le> ci_price it" "ci_discount it \<le> 100" by auto
      with cnt[OF that] c2 that line_total_nonneg[of "ci_price it" "ci_count it" "ci_discount it"]
      show ?thesis by simp
    qed
    then have "0 \<le> sum_list (map ci_total cart_items)" by (intro sum_list_nonneg) auto
    moreover have "tot = sum_list (map ci_total cart_items) * (109 / 100)"
      using tot vat disc by (simp add: algebra_simps)
    ultimately show ?thesis by simp
  qed
  have c8: "prepare_cart_data
      \<lparr>products = [\<lparr>p_id = 5, p_name = nm, p_price = 100, p_discount = 10, p_enabled = en,
                     p_count = 10\<rparr>],
       invoices = invs, invoice_items = its, payments = pays\<rparr> [(5, 2)] =
      ([\<lparr>ci_product = \<lparr>p_id = 5, p_name = nm, p_price = 100, p_discount = 10, p_enabled = en,
                       p_count = 10\<rparr>,
         ci_count = 2, ci_price = 100, ci_discount = 10, ci_total = 180\<rparr>],
       200, 20, 162 / 10, 1962 / 10)"
    by (simp add: prepare_cart_data_def filter_id_in_def product_ids_def get_product_def)
  from c1 c2 subtotal sum disc vat tot c7 c8 show ?thesis by simp
qed

theorem prepare_cart_data_pricing_witness:
  "prepare_cart_data
     \<lparr>products = [\<lparr>p_id = 5, p_name = ''tea'', p_price = 100, p_discount = 10,
                    p_enabled = True, p_count = 10\<rparr>],
      invoices = [], invoice_items = [], payments = []\<rparr> [(5, 2)] =
     ([\<lparr>ci_product = \<lparr>p_id = 5, p_name = ''tea'', p_price = 100, p_discount = 10,
                      p_enabled = True, p_count = 10\<rparr>,
        ci_count = 2, ci_price = 100, ci_discount = 10, ci_total = 180\<rparr>],
      200, 20, 162 / 10, 1962 / 10) \<and>
   (0::rat) \<le> 1962 / 10 \<and> (1962 / 10 :: rat) = (200 - 20) + 162 / 10 \<and>
   (162 / 10 :: rat) = (200 - 20) * 9 / 100"
proof -
  let ?p = "\<lparr>p_id = 5, p_name = ''tea'', p_price = 100, p_discount = 10, p_enabled = True,
             p_count = 10\<rparr>"
  let ?d = "\<lparr>products = [?p], invoices = [], invoice_items = [], payments = []\<rparr>"
  have run: "prepare_cart_data ?d [(5, 2)] =
      ([\<lparr>ci_product = ?p, ci_count = 2, ci_price = 100, ci_discount = 10, ci_total = 180\<rparr>],
       200, 20, 162 / 10, 1962 / 10)"
    by (simp add: prepare_cart_data_def filter_id_in_def product_ids_def get_product_def)
  from prepare_cart_data_pricing[OF run] run show ?thesis by simp
qed

text \<open>
  C9 as stated fails: nothing keeps a discount at or below 100. With one unit of a product
  at price 100 and discount 200 the grand total is negative.
\<close>

theorem prepare_cart_data_negative_total:
  "\<not> 0 \<le> snd (snd (snd (snd (prepare_cart_data
      \<lparr>products = [\<lparr>p_id = 5, p_name = ''tea'', p_price = 100, p_discount = 200,
                     p_enabled = True, p_count = 10\<rparr>],
       invoices = [], invoice_items = [], payments = []\<rparr> [(5, 1)]))))"
  by (simp add: prepare_cart_data_def filter_id_in_def product_ids_def get_product_def)

section \<open>Properties of settlement\<close>

lemma stock_loop_other_tables:
  "stock_loop its d = (r, d') \<Longrightarrow>
   invoices d' = invoices d \<and> invoice_items d' = invoice_items d \<and> payments d' = payments d"
proof (induction its arbitrary: d)
  case Nil
  then show ?case by simp
next
  case (Cons item rest)
  show ?case
  proof (cases "get_product (products d) (ii_product item)")
    case None
    with Cons.prems show ?thesis by simp
  next
    case (Some p)
    with Cons.prems
    have "stock_loop rest (save_product (p\<lparr>p_count := p_count p - ii_count item\<rparr>) d) = (r, d')"
      by simp
    from Cons.IH[OF this] show ?thesis by (simp add: save_product_def)
  qed
qed

lemma replace_by_key:
  assumes "distinct (map key xs)" and "x \<in> set xs"
  shows "map (\<lambda>y. if key y = key x then x' else y) xs = map (\<lambda>y. if y = x then x' else y) xs"
proof (rule map_cong[OF refl])
  fix y assume "y \<in> set xs"
  with assms have "key y = key x \<longleftrightarrow> y = x" by (auto simp: distinct_map inj_on_def)
  then show "(if key y = key x then x' else y) = (if y = x then x' else y)" by simp
qed


lemma get_invoice_Some: "get_invoice tbl k = Some i \<Longrightarrow> i_id i = k \<and> i \<in> set tbl"
  by (auto simp: get_invoice_def find_Some_iff)

lemma get_invoice_defined: "(\<exists>i. get_invoice tbl k = Some i) \<longleftrightarrow> k \<in> i_id ` set tbl"
  by (cases "get_invoice tbl k") (auto simp: get_invoice_def find_None_iff find_Some_iff)

lemma filter_single_mem:
  assumes "filter P xs = [x]"
  shows "x \<in> set xs \<and> P x"
proof -
  have "x \<in> set (filter P xs)" using assms by simp
  then show ?thesis by simp
qed

lemma filter_single_unique:
  assumes "filter P xs = [x]" and "y \<in> set xs" and "P y"
  shows "y = x"
proof -
  have "y \<in> set (filter P xs)" using assms(2,3) by simp
  then show ?thesis using assms(1) by simp
qed

lemma VerifyView_get_pending:
  assumes "a \<noteq> []"
    and "filter (\<lambda>q. pay_authority q = PStr a \<and> pay_status q = STATUS_PENDING) (payments d) = [p]"
  shows "VerifyView_get gateway status (Some a) cart d =
     (if status \<noteq> Some ''OK'' then
        \<lparr>r_response = PaymentFailed ''Payment was canceled by the user.'',
         r_db = save_payment (p\<lparr>pay_status := STATUS_ERROR\<rparr>) d, r_cart = cart, r_sent = []\<rparr>
      else
        (case gateway \<lparr>vd_amount = py_int (pay_total p), vd_authority = a\<rparr> of
           RequestFailed \<Rightarrow>
             \<lparr>r_response = PaymentFailed ''Network error!'', r_db = d, r_cart = cart,
              r_sent = [\<lparr>vd_amount = py_int (pay_total p), vd_authority = a\<rparr>]\<rparr>
         | Body verify_result \<Rightarrow>
             verify_reply verify_result p \<lparr>vd_amount = py_int (pay_total p), vd_authority = a\<rparr>
               cart d))"
  using assms by (simp add: VerifyView_get_def Let_def)


lemma verify_reply_other_code:
  assumes "map_of body ''data'' = Some (PDict data)"
    and "map_of data ''code'' \<noteq> Some (PInt 100)"
  shows "verify_reply (PDict body) p vd cart d =
     \<lparr>r_response = PaymentFailed ''Payment not verified!!'',
      r_db = save_payment (p\<lparr>pay_status := STATUS_ERROR\<rparr>) d, r_cart = cart, r_sent = [vd]\<rparr>"
  using assms by (auto simp: verify_reply_def dict_get_def split: option.splits)

lemma verify_reply_no_data:
  assumes "map_of body ''data'' = None"
  shows "verify_reply (PDict body) p vd cart d =
     \<lparr>r_response = ServerError AttributeError, r_db = d, r_cart = cart, r_sent = [vd]\<rparr>"
  using assms by (simp add: verify_reply_def dict_get_def)



lemma verify_reply_cases:
  obtains
    (raised) e where
      "verify_reply vr p vd cart d =
         \<lparr>r_response = ServerError e, r_db = d, r_cart = cart, r_sent = [vd]\<rparr>"
  | (not_verified)
      "verify_reply vr p vd cart d =
         \<lparr>r_response = PaymentFailed ''Payment not verified!!'',
          r_db = save_payment (p\<lparr>pay_status := STATUS_ERROR\<rparr>) d, r_cart = cart, r_sent = [vd]\<rparr>"
  | (no_invoice) ref_id where
      "get_invoice (invoices d) (pay_invoice p) = None"
      "verify_reply vr p vd cart d =
         \<lparr>r_response = ServerError DoesNotExist,
          r_db = save_payment (p\<lparr>pay_ref := ref_id, pay_status := STATUS_DONE\<rparr>) d,
          r_cart = cart, r_sent = [vd]\<rparr>"
  | (stock_raised) ref_id invoice e d2 where
      "get_invoice (invoices d) (pay_invoice p) = Some invoice"
      "stock_loop (filter (\<lambda>it. ii_invoice it = i_id invoice) (invoice_items d))
         (save_payment (p\<lparr>pay_ref := ref_id, pay_status := STATUS_DONE\<rparr>) d) = (Some e, d2)"
      "verify_reply vr p vd cart d =
         \<lparr>r_response = ServerError e, r_db = d2, r_cart = cart, r_sent = [vd]\<rparr>"
  | (success) ref_id invoice d2 where
      "get_invoice (invoices d) (pay_invoice p) = Some invoice"
      "stock_loop (filter (\<lambda>it. ii_invoice it = i_id invoice) (invoice_items d))
         (save_payment (p\<lparr>pay_ref := ref_id, pay_status := STATUS_DONE\<rparr>) d) = (None, d2)"
      "verify_reply vr p vd cart d =
         \<lparr>r_response = PaymentSuccess ref_id (py_int (pay_total p)),
          r_db = save_invoice
                   (if i_number invoice = None
                    then invoice\<lparr>i_number := Some (next_number (number_max (invoices d)))\<rparr>
                    else invoice) d2,
          r_cart = [], r_sent = [vd]\<rparr>"
proof (cases "py_get vr ''data'' PNone")
  case (Inl e)
  then show ?thesis using raised by (simp add: verify_reply_def)
next
  case data: (Inr data)
  show ?thesis
  proof (cases "py_get data ''code'' PNone")
    case (Inl e)
    with data show ?thesis using raised by (simp add: verify_reply_def)
  next
    case code: (Inr code)
    show ?thesis
    proof (cases "code = PInt 100")
      case False
      with data code show ?thesis using not_verified by (simp add: verify_reply_def)
    next
      case True
      show ?thesis
      proof (cases "py_index vr ''data''")
        case (Inl e)
        with data code True show ?thesis using raised by (simp add: verify_reply_def)
      next
        case data': (Inr data')
        show ?thesis
        proof (cases "py_index data' ''ref_id''")
          case (Inl e)
          with data code True data' show ?thesis using raised by (simp add: verify_reply_def)
        next
          case ref: (Inr ref_id)
          let ?p' = "p\<lparr>pay_ref := ref_id, pay_status := STATUS_DONE\<rparr>"
          have inv1: "invoices (save_payment ?p' d) = invoices d"
            and its1: "invoice_items (save_payment ?p' d) = invoice_items d"
            by (simp_all add: save_payment_def)
          show ?thesis
          proof (cases "get_invoice (invoices d) (pay_invoice p)")
            case None
            with data code True data' ref inv1 show ?thesis
              using no_invoice[of ref_id] by (simp add: verify_reply_def)
          next
            case (Some invoice)
            obtain r d2 where loop:
              "stock_loop (filter (\<lambda>it. ii_invoice it = i_id invoice) (invoice_items d))
                 (save_payment ?p' d) = (r, d2)"
              by (cases "stock_loop (filter (\<lambda>it. ii_invoice it = i_id invoice) (invoice_items d))
                 (save_payment ?p' d)")
            show ?thesis
            proof (cases r)
              case None
              with data code True data' ref inv1 its1 Some loop show ?thesis
                using success[of invoice ref_id d2] by (simp add: verify_reply_def Let_def)
            next
              case (Some e)
              with data code True data' ref inv1 its1 \<open>get_invoice (invoices d) (pay_invoice p) = Some invoice\<close> loop
              show ?thesis
                using stock_raised[of invoice ref_id e d2] by (simp add: verify_reply_def Let_def)
            qed
          qed
        qed
      qed
    qed
  qed
qed

lemma VerifyView_get_cases:
  obtains
    (cancelled)
      "VerifyView_get gateway status authority cart d =
         \<lparr>r_response = PaymentFailed ''Payment was cancelled!'', r_db = d, r_cart = cart,
          r_sent = []\<rparr>"
  | (no_payment) a where
      "authority = Some a" "a \<noteq> []"
      "filter (\<lambda>q. pay_authority q = PStr a \<and> pay_status q = STATUS_PENDING) (payments d) = []"
      "VerifyView_get gateway status authority cart d =
         \<lparr>r_response = PaymentFailed ''There is no payment document!'', r_db = d, r_cart = cart,
          r_sent = []\<rparr>"
  | (multiple)
      "VerifyView_get gateway status authority cart d =
         \<lparr>r_response = ServerError MultipleObjectsReturned, r_db = d, r_cart = cart,
          r_sent = []\<rparr>"
  | (not_ok) a p where
      "authority = Some a" "a \<noteq> []"
      "filter (\<lambda>q. pay_authority q = PStr a \<and> pay_status q = STATUS_PENDING) (payments d) = [p]"
      "status \<noteq> Some ''OK''"
      "VerifyView_get gateway status authority cart d =
         \<lparr>r_response = PaymentFailed ''Payment was canceled by the user.'',
          r_db = save_payment (p\<lparr>pay_status := STATUS_ERROR\<rparr>) d, r_cart = cart, r_sent = []\<rparr>"
  | (network) a p where
      "authority = Some a" "a \<noteq> []"
      "filter (\<lambda>q. pay_authority q = PStr a \<and> pay_status q = STATUS_PENDING) (payments d) = [p]"
      "status = Some ''OK''"
      "VerifyView_get gateway status authority cart d =
         \<lparr>r_response = PaymentFailed ''Network error!'', r_db = d, r_cart = cart,
          r_sent = [\<lparr>vd_amount = py_int (pay_total p), vd_authority = a\<rparr>]\<rparr>"
  | (reply) a p vr where
      "authority = Some a" "a \<noteq> []"
      "filter (\<lambda>q. pay_authority q = PStr a \<and> pay_status q = STATUS_PENDING) (payments d) = [p]"
      "status = Some ''OK''"
      "gateway \<lparr>vd_amount = py_int (pay_total p), vd_authority = a\<rparr> = Body vr"
      "VerifyView_get gateway status authority cart d =
         verify_reply vr p \<lparr>vd_amount = py_int (pay_total p), vd_authority = a\<rparr> cart d"
proof (cases authority)
  case None
  then show ?thesis using cancelled by (simp add: VerifyView_get_def)
next
  case (Some a)
  show ?thesis
  proof (cases "a = []")
    case True
    with Some show ?thesis using cancelled by (simp add: VerifyView_get_def)
  next
    case False
    let ?pend = "filter (\<lambda>q. pay_authority q = PStr a \<and> pay_status q = STATUS_PENDING) (payments d)"
    show ?thesis
    proof (cases ?pend)
      case Nil
      with Some False show ?thesis using no_payment[of a] by (simp add: VerifyView_get_def)
    next
      case (Cons p others)
      show ?thesis
      proof (cases "others = []")
        case False
        with Some Cons \<open>a \<noteq> []\<close> show ?thesis using multiple by (simp add: VerifyView_get_def)
      next
        case True
        with Cons have pend: "?pend = [p]" by simp
        note run = VerifyView_get_pending[OF \<open>a \<noteq> []\<close> pend, of gateway status cart]
        show ?thesis
        proof (cases "status \<noteq> Some ''OK''")
          case True
          with run Some False pend show ?thesis using not_ok[of a p] by simp
        next
          case ok: False
          show ?thesis
          proof (cases "gateway \<lparr>vd_amount = py_int (pay_total p), vd_authority = a\<rparr>")
            case RequestFailed
            with run ok Some False pend show ?thesis using network[of a p] by simp
          next
            case (Body vr)
            with run ok Some False pend show ?thesis using reply[of a p vr] by simp
          qed
        qed
      qed
    qed
  qed
qed


text \<open>
  C7. Let \<open>p\<close> be the pending payment of the authority \<open>a\<close> and the callback carry a
  Status other than OK (or none). Then the view answers with the failure page, sends
  nothing to the gateway, sets the status of \<open>p\<close> to error and changes no other payment
  row, no product, no invoice (so the number of the invoice stays as it was: null), no
  invoice item, and not the cart.
\<close>

theorem verify_not_ok:
  assumes a: "a \<noteq> []"
    and pend: "filter (\<lambda>q. pay_authority q = PStr a \<and> pay_status q = STATUS_PENDING)
                 (payments d) = [p]"
    and st: "status \<noteq> Some ''OK''"
    and keys: "distinct (map pay_id (payments d))"
  shows "r_response (VerifyView_get gateway status (Some a) cart d) =
           PaymentFailed ''Payment was canceled by the user.'' \<and>
         r_sent (VerifyView_get gateway status (Some a) cart d) = [] \<and>
         payments (r_db (VerifyView_get gateway status (Some a) cart d)) =
           map (\<lambda>q. if q = p then p\<lparr>pay_status := STATUS_ERROR\<rparr> else q) (payments d) \<and>
         products (r_db (VerifyView_get gateway status (Some a) cart d)) = products d \<and>
         invoices (r_db (VerifyView_get gateway status (Some a) cart d)) = invoices d \<and>
         invoice_items (r_db (VerifyView_get gateway status (Some a) cart d)) = invoice_items d \<and>
         r_cart (VerifyView_get gateway status (Some a) cart d) = cart"
proof -
  have pin: "p \<in> set (payments d)" using filter_single_mem[OF pend] by simp
  show ?thesis
    unfolding VerifyView_get_pending[OF a pend]
    using st replace_by_key[OF keys pin, of "p\<lparr>pay_status := STATUS_ERROR\<rparr>"]
    by (simp add: save_payment_def)
qed

theorem verify_not_ok_witness:
  "r_response (VerifyView_get (\<lambda>vd. Body reply_verified) (Some ''NOK'') (Some ''A1'') [(5, 2)]
      shop_pending) = PaymentFailed ''Payment was canceled by the user.'' \<and>
   r_sent (VerifyView_get (\<lambda>vd. Body reply_verified) (Some ''NOK'') (Some ''A1'') [(5, 2)]
      shop_pending) = [] \<and>
   payments (r_db (VerifyView_get (\<lambda>vd. Body reply_verified) (Some ''NOK'') (Some ''A1'') [(5, 2)]
      shop_pending)) = [tea_payment\<lparr>pay_status := STATUS_ERROR\<rparr>] \<and>
   products (r_db (VerifyView_get (\<lambda>vd. Body reply_verified) (Some ''NOK'') (Some ''A1'') [(5, 2)]
      shop_pending)) = [tea] \<and>
   invoices (r_db (VerifyView_get (\<lambda>vd. Body reply_verified) (Some ''NOK'') (Some ''A1'') [(5, 2)]
      shop_pending)) = [tea_invoice] \<and>
   i_number tea_invoice = None"
proof -
  have a: "''A1'' \<noteq> []" by simp
  have pend: "filter (\<lambda>q. pay_authority q = PStr ''A1'' \<and> pay_status q = STATUS_PENDING)
      (payments shop_pending) = [tea_payment]"
    by (simp add: shop_pending_def tea_payment_def)
  have st: "Some ''NOK'' \<noteq> Some ''OK''" by simp
  have keys: "distinct (map pay_id (payments shop_pending))" by (simp add: shop_pending_def)
  from verify_not_ok[OF a pend st keys, of "\<lambda>vd. Body reply_verified" "[(5, 2)]"]
  show ?thesis by (simp add: shop_pending_def tea_invoice_def)
qed

text \<open>
  C8 fails on an errors-shaped reply. For the pending payment of the scenario, Status=OK
  and the reply \<^verbatim>\<open>{"errors": {"code": -9, "message": "bad merchant"}}\<close>, which has no
  \<^verbatim>\<open>data\<close> object, \<^verbatim>\<open>verify_result.get('data')\<close> is \<^verbatim>\<open>None\<close> and \<^verbatim>\<open>.get('code')\<close> on it
  raises AttributeError: the view ends in a server error and the payment stays pending.
\<close>

theorem verify_errors_body_raises:
  "VerifyView_get (\<lambda>vd. Body reply_errors) (Some ''OK'') (Some ''A1'') [(5, 2)] shop_pending =
     \<lparr>r_response = ServerError AttributeError, r_db = shop_pending, r_cart = [(5, 2)],
      r_sent = [\<lparr>vd_amount = 196, vd_authority = ''A1''\<rparr>]\<rparr> \<and>
   map pay_status (payments shop_pending) = [STATUS_PENDING]"
proof -
  have a: "''A1'' \<noteq> []" by simp
  have pend: "filter (\<lambda>q. pay_authority q = PStr ''A1'' \<and> pay_status q = STATUS_PENDING)
      (payments shop_pending) = [tea_payment]"
    by (simp add: shop_pending_def tea_payment_def)
  have "\<lfloor>1962 / 10 :: rat\<rfloor> = 196" by (rule floor_unique) simp_all
  then have amount: "py_int (pay_total tea_payment) = 196"
    by (simp add: tea_payment_def py_int_def)
  have nodata: "map_of [(''errors'', PDict [(''code'', PInt (- 9)),
      (''message'', PStr ''bad merchant'')])] ''data'' = None" by simp
  show ?thesis
    unfolding VerifyView_get_pending[OF a pend]
    using verify_reply_no_data[OF nodata] amount
    by (simp add: reply_errors_def shop_pending_def tea_payment_def)
qed

lemma no_pending_after_save:
  assumes pend: "filter (\<lambda>q. pay_authority q = PStr a \<and> pay_status q = STATUS_PENDING) ps = [p]"
    and "pay_id p' = pay_id p" and "pay_status p' \<noteq> STATUS_PENDING"
  shows "filter (\<lambda>q. pay_authority q = PStr a \<and> pay_status q = STATUS_PENDING)
           (map (\<lambda>q. if pay_id q = pay_id p' then p' else q) ps) = []"
proof -
  have "\<not> (pay_authority q = PStr a \<and> pay_status q = STATUS_PENDING)"
    if "q \<in> set ps" "pay_id q \<noteq> pay_id p'" for q
    using filter_single_unique[OF pend that(1)] that(2) assms(2) by auto
  with assms(3) show ?thesis by (auto simp: filter_empty_conv)
qed

section \<open>Properties of the invoice builder\<close>

lemma items_loop_ok:
  assumes "\<forall>kv \<in> set cart. fst kv \<in> p_id ` set items"
  shows "\<exists>new. items_loop items invoice_id cart acc = Inr (acc @ new) \<and>
           map (\<lambda>it. (ii_product it, ii_count it)) new = cart \<and>
           (\<forall>it \<in> set new. ii_invoice it = invoice_id \<and>
              (\<exists>obj \<in> set items. ii_product it = p_id obj \<and> ii_name it = p_name obj \<and>
                 ii_price it = of_int (p_price obj) \<and> ii_discount it = p_discount obj \<and>
                 ii_total it = ii_price it * of_int (ii_count it) * (1 - ii_discount it / 100)))"
  using assms
proof (induction cart arbitrary: acc)
  case Nil
  then show ?case by simp
next
  case (Cons kv rest)
  obtain k c where kv: "kv = (k, c)" by (cases kv)
  with Cons.prems obtain obj where obj: "get_product items k = Some obj"
    using get_product_defined[of items k] by auto
  let ?it = "\<lparr>ii_product = p_id obj, ii_invoice = invoice_id, ii_count = c,
               ii_price = of_int (p_price obj), ii_discount = p_discount obj,
               ii_total = of_int (p_price obj) * of_int c * (1 - p_discount obj / 100),
               ii_name = p_name obj\<rparr>"
  from Cons.prems have "\<forall>kv \<in> set rest. fst kv \<in> p_id ` set items" by simp
  from Cons.IH[OF this, of "acc @ [?it]"] obtain new where new:
    "items_loop items invoice_id rest (acc @ [?it]) = Inr ((acc @ [?it]) @ new)"
    "map (\<lambda>it. (ii_product it, ii_count it)) new = rest"
    "\<forall>it \<in> set new. ii_invoice it = invoice_id \<and>
              (\<exists>obj \<in> set items. ii_product it = p_id obj \<and> ii_name it = p_name obj \<and>
                 ii_price it = of_int (p_price obj) \<and> ii_discount it = p_discount obj \<and>
                 ii_total it = ii_price it * of_int (ii_count it) * (1 - ii_discount it / 100))"
    by blast
  from get_product_Some[OF obj] have "p_id obj = k" "obj \<in> set items" by auto
  with new obj kv show ?case
    by (intro exI[of _ "?it # new"]) auto
qed

lemma items_loop_missing:
  assumes "\<exists>kv \<in> set cart. fst kv \<notin> p_id ` set items"
  shows "items_loop items invoice_id cart acc = Inl DoesNotExist"
  using assms
proof (induction cart arbitrary: acc)
  case Nil
  then show ?case by simp
next
  case (Cons kv rest)
  obtain k c where kv: "kv = (k, c)" by (cases kv)
  show ?case
  proof (cases "get_product items k")
    case None
    with kv show ?thesis by simp
  next
    case (Some obj)
    then have "k \<in> p_id ` set items" using get_product_defined[of items k] by auto
    with Cons.prems kv have "\<exists>kv \<in> set rest. fst kv \<notin> p_id ` set items" by auto
    from Cons.IH[OF this] Some kv show ?thesis by simp
  qed
qed

lemma resolvable_keys:
  assumes "kv \<in> set cart"
  shows "fst kv \<in> p_id ` set (filter_id_in tbl (product_ids cart)) \<longleftrightarrow>
         0 \<le> fst kv \<and> fst kv \<in> p_id ` set tbl"
  using assms key_in_product_ids[of "fst kv" "snd kv" cart]
  by (auto simp: filter_id_in_def)

lemma db_error_None:
  "db_error p = None \<longleftrightarrow>
     pay_authority p \<noteq> PNone \<and> fits 255 (column_text (pay_ref p)) \<and>
     fits 255 (column_text (pay_authority p)) \<and> CHR 0x00 \<notin> set (pay_description p) \<and>
     (\<forall>ip. pay_user_ip p = Some ip \<longrightarrow> fits 20 ip) \<and>
     fits 50 (column_text (pay_error_code p)) \<and>
     (\<forall>msg. pay_error_message p = GatewayText msg \<longrightarrow> CHR 0x00 \<notin> set (column_text msg))"
  by (auto simp: db_error_def Let_def fits_def split: option.splits err_text.splits)

lemma insert_payment_cases:
  obtains
    (refused) e where "db_error p = Some e" "insert_payment p d = Inl e"
  | (stored) p' where
      "db_error p = None"
      "insert_payment p d = Inr (d\<lparr>payments := payments d @ [p']\<rparr>)"
      "pay_status p' = pay_status p" "pay_invoice p' = pay_invoice p"
      "pay_total p' = pay_total p" "pay_authority p' = PStr (py_str (pay_authority p))"
      "pay_id p' = fresh_id (map pay_id (payments d))"
proof (cases "db_error p")
  case (Some e)
  then show ?thesis using refused[of e] by (simp add: insert_payment_def)
next
  case None
  then have "pay_authority p \<noteq> PNone" by (simp add: db_error_None)
  with None show ?thesis
    using stored[of "p\<lparr>pay_id := fresh_id (map pay_id (payments d)),
                        pay_ref := to_python (pay_ref p),
                        pay_authority := to_python (pay_authority p),
                        pay_error_code := to_python (pay_error_code p),
                        pay_error_message :=
                          (case pay_error_message p of
                             GatewayText msg \<Rightarrow> GatewayText (to_python msg)
                           | t \<Rightarrow> t)\<rparr>"]
    by (simp add: insert_payment_def to_python_def)
qed

lemma authorize_except_cases:
  obtains
    (refused) e' where
      "db_error (payment\<lparr>pay_status := STATUS_ERROR, pay_error_message := ConnectionText e\<rparr>) =
         Some e'"
      "authorize_except e payment d = (ServerError e', d)"
  | (stored) p' where
      "db_error (payment\<lparr>pay_status := STATUS_ERROR, pay_error_message := ConnectionText e\<rparr>) =
         None"
      "authorize_except e payment d =
         (CheckoutErrorPage (ConnectionText e), d\<lparr>payments := payments d @ [p']\<rparr>)"
      "pay_status p' = STATUS_ERROR" "pay_invoice p' = pay_invoice payment"
      "pay_total p' = pay_total payment" "pay_id p' = fresh_id (map pay_id (payments d))"
proof (cases rule: insert_payment_cases[where
      p = "payment\<lparr>pay_status := STATUS_ERROR, pay_error_message := ConnectionText e\<rparr>"
      and d = d])
  case (refused e')
  then show ?thesis using that(1)[of e'] by (simp add: authorize_except_def)
next
  case (stored p')
  then show ?thesis using that(2)[of p'] by (simp add: authorize_except_def)
qed

text \<open>
  The three outcomes of the authorize step for a payment object as \<^verbatim>\<open>Payment()\<close> makes
  it, with the condition of each.
\<close>

lemma authorize_reply_cases:
  assumes fresh: "pay_ref payment = PNone" "pay_authority payment = PStr []"
      "pay_description payment = []" "pay_error_code payment = PNone"
      "pay_error_message payment = NoText"
  obtains
    (redirect) authority p' where
      "read_reply reply = Authorized authority"
      "authority \<noteq> PNone" "fits 255 (py_str authority)"
      "\<forall>ip. pay_user_ip payment = Some ip \<longrightarrow> fits 20 ip"
      "authorize_reply reply payment d =
         (RedirectStartPay (py_str authority), d\<lparr>payments := payments d @ [p']\<rparr>)"
      "pay_status p' = pay_status payment" "pay_authority p' = PStr (py_str authority)"
      "pay_invoice p' = pay_invoice payment" "pay_total p' = pay_total payment"
      "pay_id p' = fresh_id (map pay_id (payments d))"
  | (error_page) msg p' where
      "\<forall>authority. read_reply reply \<noteq> Authorized authority"
      "\<forall>error_code error_message.
         read_reply reply = Declined error_code error_message \<longrightarrow> fits 50 (py_str error_code)"
      "\<forall>ip. pay_user_ip payment = Some ip \<longrightarrow> fits 20 ip"
      "authorize_reply reply payment d =
         (CheckoutErrorPage msg, d\<lparr>payments := payments d @ [p']\<rparr>)"
      "pay_status p' = STATUS_ERROR"
      "pay_invoice p' = pay_invoice payment" "pay_total p' = pay_total payment"
      "pay_id p' = fresh_id (map pay_id (payments d))"
  | (refused) e where
      "(\<exists>ip. pay_user_ip payment = Some ip \<and> \<not> fits 20 ip) \<or>
       (\<exists>authority. read_reply reply = Authorized authority \<and>
          (authority = PNone \<or> \<not> fits 255 (py_str authority))) \<or>
       (\<exists>error_code error_message. read_reply reply = Declined error_code error_message \<and>
          \<not> fits 50 (py_str error_code))"
      "authorize_reply reply payment d = (ServerError e, d)"
proof (cases "read_reply reply")
  case (Unreadable e)
  then have run: "authorize_reply reply payment d = authorize_except e payment d"
    by (simp add: authorize_reply_def)
  show ?thesis
  proof (cases rule: authorize_except_cases[where payment = payment and e = e and d = d])
    case (refused e')
    then have "db_error (payment\<lparr>pay_status := STATUS_ERROR,
        pay_error_message := ConnectionText e\<rparr>) \<noteq> None" by simp
    then have "\<exists>ip. pay_user_ip payment = Some ip \<and> \<not> fits 20 ip"
      using fresh by (simp add: db_error_None column_text_def py_str_def fits_def)
    with refused(2) run show ?thesis using that(3)[of e'] by simp
  next
    case (stored p')
    then have "\<forall>ip. pay_user_ip payment = Some ip \<longrightarrow> fits 20 ip"
      by (simp add: db_error_None)
    with stored run Unreadable show ?thesis
      using that(2)[of "ConnectionText e" p'] by simp
  qed
next
  case (Authorized authority)
  let ?p = "payment\<lparr>pay_authority := authority\<rparr>"
  have ok: "db_error ?p = None \<longleftrightarrow>
      authority \<noteq> PNone \<and> fits 255 (py_str authority) \<and>
      (\<forall>ip. pay_user_ip payment = Some ip \<longrightarrow> fits 20 ip)"
    using fresh by (auto simp: db_error_None column_text_def py_str_def fits_def)
  have ok': "db_error (?p\<lparr>pay_status := STATUS_ERROR, pay_error_message := ConnectionText e\<rparr>) =
      None \<longleftrightarrow> db_error ?p = None" for e
    using fresh by (simp add: db_error_None)
  show ?thesis
  proof (cases rule: insert_payment_cases[where p = ?p and d = d])
    case (stored p')
    then have "authorize_reply reply payment d =
        (RedirectStartPay (py_str authority), d\<lparr>payments := payments d @ [p']\<rparr>)"
      using Authorized by (simp add: authorize_reply_def)
    with stored ok Authorized show ?thesis using that(1)[of authority p'] by simp
  next
    case first: (refused e)
    then have run: "authorize_reply reply payment d = authorize_except e ?p d"
      using Authorized by (simp add: authorize_reply_def)
    from first have bad: "\<not> (authority \<noteq> PNone \<and> fits 255 (py_str authority) \<and>
      (\<forall>ip. pay_user_ip payment = Some ip \<longrightarrow> fits 20 ip))"
      using ok by simp
    show ?thesis
    proof (cases rule: authorize_except_cases[where payment = ?p and e = e and d = d])
      case (refused e')
      with run bad Authorized show ?thesis using that(3)[of e'] by auto
    next
      case (stored p')
      with ok'[of e] first(1) show ?thesis by simp
    qed
  qed
next
  case (Declined error_code error_message)
  let ?p = "payment\<lparr>pay_status := STATUS_ERROR, pay_error_code := PStr (py_str error_code),
                     pay_error_message := GatewayText error_message\<rparr>"
  have ok: "db_error ?p = None \<Longrightarrow>
      fits 50 (py_str error_code) \<and> (\<forall>ip. pay_user_ip payment = Some ip \<longrightarrow> fits 20 ip)"
    using fresh by (simp add: db_error_None column_text_def py_str_def)
  have ok': "db_error (?p\<lparr>pay_status := STATUS_ERROR, pay_error_message := ConnectionText e\<rparr>) =
      None \<longleftrightarrow>
      fits 50 (py_str error_code) \<and> (\<forall>ip. pay_user_ip payment = Some ip \<longrightarrow> fits 20 ip)" for e
    using fresh by (auto simp: db_error_None column_text_def py_str_def fits_def)
  show ?thesis
  proof (cases rule: insert_payment_cases[where p = ?p and d = d])
    case (stored p')
    then have "authorize_reply reply payment d =
        (CheckoutErrorPage (GatewayText error_message), d\<lparr>payments := payments d @ [p']\<rparr>)"
      using Declined by (simp add: authorize_reply_def)
    with stored ok Declined show ?thesis
      using that(2)[of "GatewayText error_message" p'] by simp
  next
    case first: (refused e)
    then have run: "authorize_reply reply payment d = authorize_except e ?p d"
      using Declined by (simp add: authorize_reply_def)
    show ?thesis
    proof (cases rule: authorize_except_cases[where payment = ?p and e = e and d = d])
      case (refused e')
      then have "\<not> (fits 50 (py_str error_code) \<and>
          (\<forall>ip. pay_user_ip payment = Some ip \<longrightarrow> fits 20 ip))"
        using ok'[of e] by simp
      with refused(2) run Declined show ?thesis using that(3)[of e'] by auto
    next
      case (stored p')
      then have "fits 50 (py_str error_code) \<and>
          (\<forall>ip. pay_user_ip payment = Some ip \<longrightarrow> fits 20 ip)"
        using ok'[of e] by simp
      with stored run Declined show ?thesis
        using that(2)[of "ConnectionText e" p'] by simp
    qed
  qed
qed

lemma new_payment_fields:
  "pay_authority (new_payment invoice meta) = PStr [] \<and>
   pay_status (new_payment invoice meta) = STATUS_PENDING \<and>
   pay_invoice (new_payment invoice meta) = i_id invoice \<and>
   pay_ref (new_payment invoice meta) = PNone \<and>
   pay_description (new_payment invoice meta) = [] \<and>
   pay_error_code (new_payment invoice meta) = PNone \<and>
   pay_error_message (new_payment invoice meta) = NoText \<and>
   pay_user_ip (new_payment invoice meta) = get_user_ip meta"
  by (simp add: new_payment_def Let_def)

lemma CheckoutCartView_post_cases:
  obtains
    (invalid)
      "\<not> f_is_valid form"
      "CheckoutCartView_post gateway form usr meta cart d =
         \<lparr>r_response = CheckoutPage, r_db = d, r_cart = cart, r_sent = []\<rparr>"
  | (raised) e where
      "f_is_valid form"
      "items_loop (filter_id_in (products d) (product_ids cart))
         (i_id (new_invoice form usr cart d)) cart [] = Inl e"
      "CheckoutCartView_post gateway form usr meta cart d =
         \<lparr>r_response = ServerError e,
          r_db = d\<lparr>invoices := invoices d @ [new_invoice form usr cart d]\<rparr>,
          r_cart = cart, r_sent = []\<rparr>"
  | (built) invoice_item resp d3 where
      "f_is_valid form"
      "items_loop (filter_id_in (products d) (product_ids cart))
         (i_id (new_invoice form usr cart d)) cart [] = Inr invoice_item"
      "authorize_reply
         (gateway \<lparr>rd_amount = py_int (pay_total (new_payment (new_invoice form usr cart d) meta)),
                   rd_invoice = i_id (new_invoice form usr cart d), rd_email = u_email usr\<rparr>)
         (new_payment (new_invoice form usr cart d) meta)
         (d\<lparr>invoices := invoices d @ [new_invoice form usr cart d],
            invoice_items := invoice_items d @ invoice_item\<rparr>) = (resp, d3)"
      "CheckoutCartView_post gateway form usr meta cart d =
         \<lparr>r_response = resp, r_db = d3, r_cart = cart,
          r_sent =
            [\<lparr>rd_amount = py_int (pay_total (new_payment (new_invoice form usr cart d) meta)),
              rd_invoice = i_id (new_invoice form usr cart d), rd_email = u_email usr\<rparr>]\<rparr>"
proof (cases "f_is_valid form")
  case False
  then show ?thesis using invalid by (simp add: CheckoutCartView_post_def)
next
  case True
  let ?inv = "new_invoice form usr cart d"
  show ?thesis
  proof (cases "items_loop (filter_id_in (products d) (product_ids cart)) (i_id ?inv) cart []")
    case (Inl e)
    with True show ?thesis using raised[of e] by (simp add: CheckoutCartView_post_def Let_def)
  next
    case (Inr invoice_item)
    let ?d2 = "d\<lparr>invoices := invoices d @ [?inv], invoice_items := invoice_items d @ invoice_item\<rparr>"
    let ?pay = "new_payment ?inv meta"
    let ?req = "\<lparr>rd_amount = py_int (pay_total ?pay), rd_invoice = i_id ?inv, rd_email = u_email usr\<rparr>"
    obtain resp d3 where ar: "authorize_reply (gateway ?req) ?pay ?d2 = (resp, d3)"
      by (cases "authorize_reply (gateway ?req) ?pay ?d2")
    have "CheckoutCartView_post gateway form usr meta cart d =
        \<lparr>r_response = resp, r_db = d3, r_cart = cart, r_sent = [?req]\<rparr>"
      using True Inr ar by (simp add: CheckoutCartView_post_def Let_def)
    then show ?thesis using built[of invoice_item resp d3] True Inr ar by simp
  qed
qed

text \<open>What the reply of the gateway leaves of a checkout whose items were built.\<close>

lemma built_db:
  assumes "authorize_reply reply (new_payment invoice meta) d2 = (resp, d3)"
  shows "products d3 = products d2 \<and> invoices d3 = invoices d2 \<and>
         invoice_items d3 = invoice_items d2 \<and>
         (payments d3 = payments d2 \<or>
          (\<exists>p'. payments d3 = payments d2 @ [p'] \<and> pay_invoice p' = i_id invoice \<and>
             pay_id p' = fresh_id (map pay_id (payments d2)) \<and> pay_status p' \<noteq> STATUS_DONE))"
proof -
  let ?p = "new_payment invoice meta"
  have "pay_ref ?p = PNone" "pay_authority ?p = PStr []" "pay_description ?p = []"
    "pay_error_code ?p = PNone" "pay_error_message ?p = NoText"
    by (simp_all add: new_payment_fields)
  then show ?thesis
  proof (cases rule: authorize_reply_cases[where reply = reply and d = d2])
    case (redirect authority p')
    with assms show ?thesis by (auto simp: new_payment_fields)
  next
    case (error_page msg p')
    with assms show ?thesis by (auto simp: new_payment_fields)
  next
    case (refused e)
    with assms show ?thesis by auto
  qed
qed

lemma fold_max_ge: "(a::int) \<le> fold max ids a \<and> (\<forall>x \<in> set ids. x \<le> fold max ids a)"
proof (induction ids arbitrary: a)
  case Nil
  then show ?case by simp
next
  case (Cons y ys)
  from Cons.IH[of "max y a"] show ?case by auto
qed

lemma fresh_id_new: "fresh_id ids \<notin> set ids"
  using fold_max_ge[of 0 ids] by (auto simp: fresh_id_def)



text \<open>
  C5 (amended). A checkout submission with an invalid form leaves the database as it
  is. A submission with a valid form whose cart keys all are ids of products adds the
  invoice and, with it, one invoice item per cart line, in the cart's order: each item
  belongs to the new invoice and carries the product's id, the quantity of the line and
  the product's name, price and discount, with total price * count * (1 - discount/100).
  What a submission leaves behind when a cart line has no product is not part of this
  statement.
\<close>

theorem checkout_builds_invoice:
  "(\<not> f_is_valid form \<longrightarrow>
      r_db (CheckoutCartView_post gateway form usr meta cart d) = d) \<and>
   (f_is_valid form \<and> (\<forall>kv \<in> set cart. 0 \<le> fst kv \<and> fst kv \<in> p_id ` set (products d)) \<longrightarrow>
      (\<exists>items.
         invoices (r_db (CheckoutCartView_post gateway form usr meta cart d)) =
           invoices d @ [new_invoice form usr cart d] \<and>
         i_id (new_invoice form usr cart d) \<notin> i_id ` set (invoices d) \<and>
         invoice_items (r_db (CheckoutCartView_post gateway form usr meta cart d)) =
           invoice_items d @ items \<and>
         map (\<lambda>it. (ii_product it, ii_count it)) items = cart \<and>
         (\<forall>it \<in> set items. ii_invoice it = i_id (new_invoice form usr cart d) \<and>
            (\<exists>obj \<in> set (products d). ii_product it = p_id obj \<and> ii_name it = p_name obj \<and>
               ii_price it = of_int (p_price obj) \<and> ii_discount it = p_discount obj \<and>
               ii_total it = ii_price it * of_int (ii_count it) * (1 - ii_discount it / 100)))))"
proof (intro conjI impI)
  assume "\<not> f_is_valid form"
  then show "r_db (CheckoutCartView_post gateway form usr meta cart d) = d"
    by (simp add: CheckoutCartView_post_def)
next
  let ?R = "CheckoutCartView_post gateway form usr meta cart d"
  let ?inv = "new_invoice form usr cart d"
  let ?items = "filter_id_in (products d) (product_ids cart)"
  assume A: "f_is_valid form \<and> (\<forall>kv \<in> set cart. 0 \<le> fst kv \<and> fst kv \<in> p_id ` set (products d))"
  then have "\<forall>kv \<in> set cart. fst kv \<in> p_id ` set ?items"
    using resolvable_keys[of _ cart "products d"] by blast
  from items_loop_ok[OF this, of "i_id ?inv" "[]"] obtain new where new:
    "items_loop ?items (i_id ?inv) cart [] = Inr new"
    "map (\<lambda>it. (ii_product it, ii_count it)) new = cart"
    "\<forall>it \<in> set new. ii_invoice it = i_id ?inv \<and>
        (\<exists>obj \<in> set ?items. ii_product it = p_id obj \<and> ii_name it = p_name obj \<and>
           ii_price it = of_int (p_price obj) \<and> ii_discount it = p_discount obj \<and>
           ii_total it = ii_price it * of_int (ii_count it) * (1 - ii_discount it / 100))"
    by auto
  have fresh: "i_id ?inv \<notin> i_id ` set (invoices d)"
    using fresh_id_new[of "map i_id (invoices d)"] by (simp add: new_invoice_def)
  have sub: "set ?items \<subseteq> set (products d)" by (auto simp: filter_id_in_def)
  have snap: "\<forall>it \<in> set new. ii_invoice it = i_id ?inv \<and>
        (\<exists>obj \<in> set (products d). ii_product it = p_id obj \<and> ii_name it = p_name obj \<and>
           ii_price it = of_int (p_price obj) \<and> ii_discount it = p_discount obj \<and>
           ii_total it = ii_price it * of_int (ii_count it) * (1 - ii_discount it / 100))"
    using new(3) sub by blast
  have db: "invoices (r_db ?R) = invoices d @ [?inv] \<and>
            invoice_items (r_db ?R) = invoice_items d @ new"
  proof (cases rule: CheckoutCartView_post_cases[of form gateway usr meta cart d])
    case invalid
    with A show ?thesis by simp
  next
    case (raised e)
    with new(1) show ?thesis by simp
  next
    case (built invoice_item resp d3)
    from built_db[OF built(3)] built(2,4) new(1) show ?thesis by simp
  qed
  show "\<exists>items.
         invoices (r_db ?R) = invoices d @ [?inv] \<and>
         i_id ?inv \<notin> i_id ` set (invoices d) \<and>
         invoice_items (r_db ?R) = invoice_items d @ items \<and>
         map (\<lambda>it. (ii_product it, ii_count it)) items = cart \<and>
         (\<forall>it \<in> set items. ii_invoice it = i_id ?inv \<and>
            (\<exists>obj \<in> set (products d). ii_product it = p_id obj \<and> ii_name it = p_name obj \<and>
               ii_price it = of_int (p_price obj) \<and> ii_discount it = p_discount obj \<and>
               ii_total it = ii_price it * of_int (ii_count it) * (1 - ii_discount it / 100)))"
    using db fresh new(2) snap by (intro exI[of _ new]) simp
qed

lemma shop_total: "get_cart_total_price shop [(5, 2)] = 180"
  by (simp add: get_cart_total_price_def product_ids_def filter_id_in_def shop_def tea_def
      get_product_def py_round2_def round_half_even_def)

theorem checkout_builds_invoice_witness:
  "invoices (r_db (CheckoutCartView_post (\<lambda>rq. Body reply_authorized) valid_form buyer buyer_meta
      [(5, 2)] shop)) = [tea_invoice] \<and>
   invoice_items (r_db (CheckoutCartView_post (\<lambda>rq. Body reply_authorized) valid_form buyer
      buyer_meta [(5, 2)] shop)) = [tea_line] \<and>
   r_db (CheckoutCartView_post (\<lambda>rq. Body reply_authorized)
      (valid_form\<lparr>f_is_valid := False\<rparr>) buyer buyer_meta [(5, 2)] shop) = shop"
proof -
  let ?gw = "\<lambda>rq :: request_data. Body reply_authorized"
  have inv: "new_invoice valid_form buyer [(5, 2)] shop = tea_invoice"
    by (simp add: new_invoice_def shop_total tea_invoice_def valid_form_def buyer_def)
       (simp add: shop_def fresh_id_def)
  have hyp: "f_is_valid valid_form \<and>
      (\<forall>kv \<in> set ([(5, 2)] :: cart). 0 \<le> fst kv \<and> fst kv \<in> p_id ` set (products shop))"
    by (simp add: valid_form_def shop_def tea_def)
  have inval: "\<not> f_is_valid (valid_form\<lparr>f_is_valid := False\<rparr>)" by simp
  from checkout_builds_invoice[of valid_form ?gw buyer buyer_meta "[(5, 2)]" shop,
      THEN conjunct2, THEN mp, OF hyp]
  obtain items where items:
    "invoices (r_db (CheckoutCartView_post ?gw valid_form buyer buyer_meta [(5, 2)] shop)) =
       invoices shop @ [tea_invoice]"
    "invoice_items (r_db (CheckoutCartView_post ?gw valid_form buyer buyer_meta [(5, 2)] shop)) =
       invoice_items shop @ items"
    "map (\<lambda>it. (ii_product it, ii_count it)) items = [(5, 2)]"
    "\<forall>it \<in> set items. ii_invoice it = i_id tea_invoice \<and>
       (\<exists>obj \<in> set (products shop). ii_product it = p_id obj \<and> ii_name it = p_name obj \<and>
          ii_price it = of_int (p_price obj) \<and> ii_discount it = p_discount obj \<and>
          ii_total it = ii_price it * of_int (ii_count it) * (1 - ii_discount it / 100))"
    unfolding inv by (elim exE conjE) (rule that)
  from items(3) obtain it where it: "items = [it]" "ii_product it = 5" "ii_count it = 2"
    by (cases items) auto
  with items(4) have "it = tea_line"
    by (simp add: shop_def tea_def tea_line_def tea_invoice_def)
  with items(1,2) it(1)
    checkout_builds_invoice[of "valid_form\<lparr>f_is_valid := False\<rparr>" ?gw buyer buyer_meta "[(5, 2)]" shop]
    inval
  show ?thesis by (simp add: shop_def)
qed

text \<open>
  C5 as stated fails: the invoice is saved before the items are built, and no transaction
  spans the view. With the cart {"7": 1} and no product 7 the view raises while it builds
  the items; the invoice stays, with no item for the one cart line (and no payment).
\<close>

theorem checkout_invoice_without_items:
  "invoices (r_db (CheckoutCartView_post (\<lambda>rq. Body reply_authorized) valid_form buyer buyer_meta
      [(7, 1)] shop)) = [tea_invoice\<lparr>i_total := 0\<rparr>] \<and>
   invoice_items (r_db (CheckoutCartView_post (\<lambda>rq. Body reply_authorized) valid_form buyer
      buyer_meta [(7, 1)] shop)) = [] \<and>
   payments (r_db (CheckoutCartView_post (\<lambda>rq. Body reply_authorized) valid_form buyer
      buyer_meta [(7, 1)] shop)) = []"
  by (simp add: CheckoutCartView_post_def new_invoice_def get_cart_total_price_def
      product_ids_def filter_id_in_def get_product_def shop_def tea_def tea_invoice_def
      valid_form_def buyer_def fresh_id_def py_round2_def round_half_even_def)







text \<open>
  C6 fails for the invoice builder. For the cart {"5": 2, "7": 1} with product 5 and no
  product 7, \<^verbatim>\<open>get_cart_total_price\<close> and \<^verbatim>\<open>prepare_cart_data\<close> drop the entry 7 and
  compute over the entry 5, but \<^verbatim>\<open>CheckoutCartView.post\<close> raises \<^verbatim>\<open>DoesNotExist\<close> at
  \<^verbatim>\<open>items.get(id=int(item_id))\<close>, before anything is sent to the gateway.
\<close>

theorem checkout_missing_product_raises:
  "r_response (CheckoutCartView_post gateway valid_form buyer buyer_meta [(5, 2), (7, 1)] shop) =
     ServerError DoesNotExist \<and>
   r_sent (CheckoutCartView_post gateway valid_form buyer buyer_meta [(5, 2), (7, 1)] shop) = [] \<and>
   get_cart_total_price shop [(5, 2), (7, 1)] = 180 \<and>
   map (\<lambda>it. (p_id (ci_product it), ci_count it)) (fst (prepare_cart_data shop [(5, 2), (7, 1)])) =
     [(5, 2)]"
  by (simp add: CheckoutCartView_post_def new_invoice_def
      get_cart_total_price_def prepare_cart_data_def product_ids_def filter_id_in_def
      get_product_def shop_def tea_def valid_form_def py_round2_def round_half_even_def)

section \<open>Invoice numbers\<close>

lemma next_number_Some: "next_number (Some m) = m + 1"
  by (simp add: next_number_def)

lemma number_max_bound:
  assumes "i \<in> set tbl" and "i_number i = Some n"
  shows "n < next_number (number_max tbl)"
proof -
  from assms have mem: "n \<in> set (List.map_filter i_number tbl)"
    by (force simp: List.map_filter_def)
  then obtain n0 ns where ns: "List.map_filter i_number tbl = n0 # ns"
    by (cases "List.map_filter i_number tbl") auto
  with mem have "n \<le> fold max ns n0" using fold_max_ge[of n0 ns] by auto
  moreover have "number_max tbl = Some (fold max ns n0)" by (simp add: number_max_def ns)
  ultimately show ?thesis by (simp add: next_number_Some)
qed

lemma next_number_positive:
  assumes "\<forall>i \<in> set tbl. \<forall>n. i_number i = Some n \<longrightarrow> 0 < n"
  shows "0 < next_number (number_max tbl)"
proof (cases "List.map_filter i_number tbl")
  case Nil
  then show ?thesis by (simp add: number_max_def next_number_def)
next
  case (Cons n0 ns)
  then have "n0 \<in> set (List.map_filter i_number tbl)" by simp
  then obtain i where "i \<in> set tbl" "i_number i = Some n0"
    by (auto simp: List.map_filter_def)
  with assms number_max_bound[of i tbl n0] show ?thesis by force
qed

lemma replace_at:
  assumes "distinct (map key xs)" and "k < length xs"
  shows "map (\<lambda>y. if key y = key (xs ! k) then x' else y) xs = xs[k := x']"
proof (rule nth_equalityI)
  show "length (map (\<lambda>y. if key y = key (xs ! k) then x' else y) xs) = length (xs[k := x'])"
    by simp
next
  fix j assume "j < length (map (\<lambda>y. if key y = key (xs ! k) then x' else y) xs)"
  then have j: "j < length xs" by simp
  with assms have "key (xs ! j) = key (xs ! k) \<longleftrightarrow> j = k"
    using nth_eq_iff_index_eq[of "map key xs" j k] by simp
  with j show "map (\<lambda>y. if key y = key (xs ! k) then x' else y) xs ! j = xs[k := x'] ! j"
    by (simp add: nth_list_update)
qed

lemma post_invoices_step:
  "invoices (r_db (CheckoutCartView_post gateway form usr meta cart d)) = invoices d \<or>
   (\<exists>inv. i_number inv = None \<and> i_id inv \<notin> i_id ` set (invoices d) \<and>
      invoices (r_db (CheckoutCartView_post gateway form usr meta cart d)) = invoices d @ [inv])"
proof -
  have new: "i_number (new_invoice form usr cart d) = None \<and>
             i_id (new_invoice form usr cart d) \<notin> i_id ` set (invoices d)"
    using fresh_id_new[of "map i_id (invoices d)"] by (simp add: new_invoice_def)
  show ?thesis
  proof (cases rule: CheckoutCartView_post_cases[of form gateway usr meta cart d])
    case invalid
    then show ?thesis by simp
  next
    case (raised e)
    with new show ?thesis by (intro disjI2 exI[of _ "new_invoice form usr cart d"]) simp
  next
    case (built invoice_item resp d3)
    from built_db[OF built(3)] built(4) new show ?thesis
      by (intro disjI2 exI[of _ "new_invoice form usr cart d"]) simp
  qed
qed

lemma shop_checkout:
  "CheckoutCartView_post (\<lambda>rq. Body reply_authorized) valid_form buyer buyer_meta [(5, 2)] shop =
     \<lparr>r_response = RedirectStartPay ''A1'', r_db = shop_pending, r_cart = [(5, 2)],
      r_sent = [\<lparr>rd_amount = 196, rd_invoice = 1, rd_email = ''buyer@example.org''\<rparr>]\<rparr>"
proof -
  have fl: "\<lfloor>981 / 5 :: rat\<rfloor> = 196" by (rule floor_unique) simp_all
  show ?thesis
    by (simp add: CheckoutCartView_post_def new_invoice_def new_payment_def
        get_cart_total_price_def product_ids_def filter_id_in_def get_product_def shop_def
        shop_pending_def tea_def tea_invoice_def tea_line_def tea_payment_def valid_form_def
        buyer_def buyer_meta_def fresh_id_def get_user_ip_def authorize_reply_def
        read_reply_def reply_authorized_def dict_get_def insert_payment_def db_error_def
        column_text_def to_python_def py_str_def
        py_round2_def round_half_even_def py_int_def fl)
qed

lemma shop_verify:
  "VerifyView_get (\<lambda>vd. Body reply_verified) (Some ''OK'') (Some ''A1'') [(5, 2)] shop_pending =
     \<lparr>r_response = PaymentSuccess (PInt 777) 196,
      r_db = \<lparr>products = [tea\<lparr>p_count := 8\<rparr>],
              invoices = [tea_invoice\<lparr>i_number := Some 1\<rparr>],
              invoice_items = [tea_line],
              payments = [tea_payment\<lparr>pay_ref := PInt 777, pay_status := STATUS_DONE\<rparr>]\<rparr>,
      r_cart = [], r_sent = [\<lparr>vd_amount = 196, vd_authority = ''A1''\<rparr>]\<rparr>"
proof -
  have fl: "\<lfloor>981 / 5 :: rat\<rfloor> = 196" by (rule floor_unique) simp_all
  show ?thesis
    by (simp add: VerifyView_get_def verify_reply_def reply_verified_def dict_get_def
        shop_pending_def tea_def tea_invoice_def tea_line_def tea_payment_def save_payment_def
        save_product_def save_invoice_def get_invoice_def get_product_def number_max_def
        List.map_filter_def next_number_def py_int_def fl)
qed

lemma reachable_shop_pending: "reachable shop_pending"
proof -
  have "reachable shop" by (rule reachable.start) (simp_all add: shop_def)
  from reachable.checkout[OF this, of "\<lambda>rq. Body reply_authorized" valid_form buyer buyer_meta "[(5, 2)]"]
  show ?thesis by (simp add: shop_checkout)
qed

lemma distinct_map_nth:
  assumes "distinct (map f xs)" and "i < length xs" and "j < length xs"
    and "f (xs ! i) = f (xs ! j)"
  shows "i = j"
  using assms nth_eq_iff_index_eq[of "map f xs" i j] by simp

lemma save_product_ids:
  "map p_id (products (save_product p d)) = map p_id (products d)"
  by (simp add: save_product_def comp_def if_distrib cong: if_cong)

lemma stock_loop_no_raise:
  assumes "ii_product ` set its \<subseteq> p_id ` set (products d)"
  shows "fst (stock_loop its d) = None \<and>
         map p_id (products (snd (stock_loop its d))) = map p_id (products d)"
  using assms
proof (induction its arbitrary: d)
  case Nil
  then show ?case by simp
next
  case (Cons item rest)
  from Cons.prems obtain p where p: "get_product (products d) (ii_product item) = Some p"
    using get_product_defined[of "products d" "ii_product item"] by auto
  let ?d1 = "save_product (p\<lparr>p_count := p_count p - ii_count item\<rparr>) d"
  have ids: "map p_id (products ?d1) = map p_id (products d)" by (rule save_product_ids)
  then have "p_id ` set (products ?d1) = p_id ` set (products d)"
    by (metis set_map)
  with Cons.prems have "ii_product ` set rest \<subseteq> p_id ` set (products ?d1)" by simp
  from Cons.IH[OF this] p ids show ?case by simp
qed

lemma items_loop_products:
  assumes "items_loop items invoice_id cart acc = Inr res"
  shows "ii_product ` set res \<subseteq> ii_product ` set acc \<union> p_id ` set items"
  using assms
proof (induction cart arbitrary: acc)
  case Nil
  then show ?case by auto
next
  case (Cons kv rest)
  obtain k c where kv: "kv = (k, c)" by (cases kv)
  show ?case
  proof (cases "get_product items k")
    case None
    with Cons.prems kv show ?thesis by simp
  next
    case (Some obj)
    from get_product_Some[OF Some] have obj: "obj \<in> set items" by simp
    from Cons.prems kv Some Cons.IH show ?thesis using obj by fastforce
  qed
qed

lemma verify_step:
  assumes keys: "keys_ok d" and nums: "numbers_ok d"
  obtains
    (unchanged)
      "r_db (VerifyView_get gateway status authority cart d) = d"
      "\<forall>ref_id amount. r_response (VerifyView_get gateway status authority cart d) \<noteq>
         PaymentSuccess ref_id amount"
  | (failed) j where
      "j < length (payments d)" "pay_status (payments d ! j) = STATUS_PENDING"
      "r_db (VerifyView_get gateway status authority cart d) =
         d\<lparr>payments := (payments d)[j := (payments d ! j)\<lparr>pay_status := STATUS_ERROR\<rparr>]\<rparr>"
      "\<forall>ref_id amount. r_response (VerifyView_get gateway status authority cart d) \<noteq>
         PaymentSuccess ref_id amount"
  | (settled) j k ref_id where
      "j < length (payments d)" "pay_status (payments d ! j) = STATUS_PENDING"
      "k < length (invoices d)" "pay_invoice (payments d ! j) = i_id (invoices d ! k)"
      "i_number (invoices d ! k) = None"
      "r_response (VerifyView_get gateway status authority cart d) =
         PaymentSuccess ref_id (py_int (pay_total (payments d ! j)))"
      "payments (r_db (VerifyView_get gateway status authority cart d)) =
         (payments d)[j := (payments d ! j)\<lparr>pay_ref := ref_id, pay_status := STATUS_DONE\<rparr>]"
      "invoices (r_db (VerifyView_get gateway status authority cart d)) =
         (invoices d)[k := (invoices d ! k)\<lparr>i_number :=
            Some (next_number (number_max (invoices d)))\<rparr>]"
      "invoice_items (r_db (VerifyView_get gateway status authority cart d)) = invoice_items d"
      "map p_id (products (r_db (VerifyView_get gateway status authority cart d))) =
         map p_id (products d)"
proof -
  let ?R = "VerifyView_get gateway status authority cart d"
  from keys have ids: "distinct (map i_id (invoices d))"
    and pids: "distinct (map pay_id (payments d))"
    and one: "distinct (map pay_invoice (payments d))"
    and fk: "pay_invoice ` set (payments d) \<subseteq> i_id ` set (invoices d)"
    and prot: "ii_product ` set (invoice_items d) \<subseteq> p_id ` set (products d)"
    by (simp_all add: keys_ok_def)
  have err: thesis
    if "p \<in> set (payments d)" "pay_status p = STATUS_PENDING"
      "?R = \<lparr>r_response = PaymentFailed reason,
             r_db = save_payment (p\<lparr>pay_status := STATUS_ERROR\<rparr>) d, r_cart = c, r_sent = sn\<rparr>"
    for p reason c sn
  proof -
    from that(1) obtain j where j: "j < length (payments d)" "payments d ! j = p"
      by (auto simp: in_set_conv_nth)
    have "payments (save_payment (p\<lparr>pay_status := STATUS_ERROR\<rparr>) d) =
        (payments d)[j := p\<lparr>pay_status := STATUS_ERROR\<rparr>]"
      using replace_at[OF pids j(1), of "p\<lparr>pay_status := STATUS_ERROR\<rparr>"] j(2)
      by (simp add: save_payment_def)
    then have "r_db ?R = d\<lparr>payments := (payments d)[j := (payments d ! j)\<lparr>pay_status := STATUS_ERROR\<rparr>]\<rparr>"
      using that(3) j(2) by (simp add: save_payment_def)
    with failed[of j] j that(2,3) show thesis by simp
  qed
  show thesis
  proof (cases rule: VerifyView_get_cases[of gateway status authority cart d])
    case cancelled
    then show ?thesis using unchanged by simp
  next
    case (no_payment a)
    then show ?thesis using unchanged by simp
  next
    case multiple
    then show ?thesis using unchanged by simp
  next
    case (not_ok a p)
    from filter_single_mem[OF not_ok(3)] not_ok(5) show ?thesis
      by (intro err[of p]) auto
  next
    case (network a p)
    then show ?thesis using unchanged by simp
  next
    case (reply a p vr)
    let ?vd = "\<lparr>vd_amount = py_int (pay_total p), vd_authority = a\<rparr>"
    from filter_single_mem[OF reply(3)]
    have pin: "p \<in> set (payments d)" and pst: "pay_status p = STATUS_PENDING" by auto
    show ?thesis
    proof (cases rule: verify_reply_cases[of vr p ?vd cart d])
      case (raised e)
      with reply(6) show ?thesis using unchanged by simp
    next
      case not_verified
      with reply(6) pin pst show ?thesis by (intro err[of p]) auto
    next
      case (no_invoice ref_id)
      from pin fk have "pay_invoice p \<in> i_id ` set (invoices d)" by auto
      with no_invoice(1) show ?thesis
        using get_invoice_defined[of "invoices d" "pay_invoice p"] by simp
    next
      case (stock_raised ref_id invoice e d2)
      let ?d1 = "save_payment (p\<lparr>pay_ref := ref_id, pay_status := STATUS_DONE\<rparr>) d"
      have "ii_product ` set (filter (\<lambda>it. ii_invoice it = i_id invoice) (invoice_items d))
          \<subseteq> p_id ` set (products ?d1)"
        using prot by (auto simp: save_payment_def)
      from stock_loop_no_raise[OF this] stock_raised(2) show ?thesis by simp
    next
      case (success ref_id invoice d2)
      let ?p' = "p\<lparr>pay_ref := ref_id, pay_status := STATUS_DONE\<rparr>"
      let ?d1 = "save_payment ?p' d"
      let ?its = "filter (\<lambda>it. ii_invoice it = i_id invoice) (invoice_items d)"
      let ?m = "next_number (number_max (invoices d))"
      from pin obtain j where j: "j < length (payments d)" "payments d ! j = p"
        by (auto simp: in_set_conv_nth)
      from get_invoice_Some[OF success(1)]
      have iid: "i_id invoice = pay_invoice p" and iin: "invoice \<in> set (invoices d)" by auto
      then obtain k where k: "k < length (invoices d)" "invoices d ! k = invoice"
        by (auto simp: in_set_conv_nth)
      have none: "i_number invoice = None"
      proof (rule ccontr)
        assume "i_number invoice \<noteq> None"
        with nums k obtain j' where j': "j' < length (payments d)"
          "pay_invoice (payments d ! j') = i_id invoice" "pay_status (payments d ! j') = STATUS_DONE"
          unfolding numbers_ok_def by blast
        from j' j iid have "pay_invoice (payments d ! j') = pay_invoice (payments d ! j)"
          by simp
        from distinct_map_nth[OF one j'(1) j(1) this] have "j' = j" .
        with j'(3) j(2) pst show False by simp
      qed
      have tables: "invoices d2 = invoices d" "invoice_items d2 = invoice_items d"
        "payments d2 = payments ?d1"
        using stock_loop_other_tables[OF success(2)] by (simp_all add: save_payment_def)
      have "ii_product ` set ?its \<subseteq> p_id ` set (products ?d1)"
        using prot by (auto simp: save_payment_def)
      from stock_loop_no_raise[OF this] success(2)
      have pr: "map p_id (products d2) = map p_id (products d)" by (simp add: save_payment_def)
      have pays: "payments ?d1 = (payments d)[j := ?p']"
        using replace_at[OF pids j(1), of ?p'] j(2) by (simp add: save_payment_def)
      have "i_id (invoice\<lparr>i_number := Some ?m\<rparr>) = i_id (invoices d ! k)" using k by simp
      then have invs: "invoices (save_invoice (invoice\<lparr>i_number := Some ?m\<rparr>) d2) =
          (invoices d)[k := invoice\<lparr>i_number := Some ?m\<rparr>]"
        using replace_at[OF ids k(1), of "invoice\<lparr>i_number := Some ?m\<rparr>"] tables(1)
        by (simp add: save_invoice_def)
      have run: "?R = \<lparr>r_response = PaymentSuccess ref_id (py_int (pay_total p)),
          r_db = save_invoice (invoice\<lparr>i_number := Some ?m\<rparr>) d2, r_cart = [], r_sent = [?vd]\<rparr>"
        using reply(6) success(3) none by simp
      show ?thesis
        using settled[of j k ref_id] j k iid none pst run pays invs tables pr
        by (simp add: save_invoice_def)
    qed
  qed
qed

lemma post_step:
  obtains
    (untouched) "r_db (CheckoutCartView_post gateway form usr meta cart d) = d"
  | (order) items pays where
      "products (r_db (CheckoutCartView_post gateway form usr meta cart d)) = products d"
      "invoices (r_db (CheckoutCartView_post gateway form usr meta cart d)) =
         invoices d @ [new_invoice form usr cart d]"
      "invoice_items (r_db (CheckoutCartView_post gateway form usr meta cart d)) =
         invoice_items d @ items"
      "ii_product ` set items \<subseteq> p_id ` set (products d)"
      "payments (r_db (CheckoutCartView_post gateway form usr meta cart d)) = payments d @ pays"
      "pays = [] \<or>
       (\<exists>p'. pays = [p'] \<and> pay_invoice p' = i_id (new_invoice form usr cart d) \<and>
          pay_id p' = fresh_id (map pay_id (payments d)) \<and> pay_status p' \<noteq> STATUS_DONE)"
proof (cases rule: CheckoutCartView_post_cases[of form gateway usr meta cart d])
  case invalid
  then show ?thesis using untouched by simp
next
  case (raised e)
  then show ?thesis using order[of "[]" "[]"] by simp
next
  case (built invoice_item resp d3)
  from items_loop_products[OF built(2)]
  have prods: "ii_product ` set invoice_item \<subseteq> p_id ` set (products d)"
    by (auto simp: filter_id_in_def)
  from built_db[OF built(3)]
  have tables: "products d3 = products d"
    "invoices d3 = invoices d @ [new_invoice form usr cart d]"
    "invoice_items d3 = invoice_items d @ invoice_item"
    and pays: "payments d3 = payments d \<or>
      (\<exists>p'. payments d3 = payments d @ [p'] \<and> pay_invoice p' = i_id (new_invoice form usr cart d) \<and>
         pay_id p' = fresh_id (map pay_id (payments d)) \<and> pay_status p' \<noteq> STATUS_DONE)"
    by simp_all
  from pays show ?thesis
  proof
    assume "payments d3 = payments d"
    with tables prods built(4) show ?thesis using order[of invoice_item "[]"] by simp
  next
    assume "\<exists>p'. payments d3 = payments d @ [p'] \<and>
      pay_invoice p' = i_id (new_invoice form usr cart d) \<and>
      pay_id p' = fresh_id (map pay_id (payments d)) \<and> pay_status p' \<noteq> STATUS_DONE"
    then obtain p' where "payments d3 = payments d @ [p']"
      "pay_invoice p' = i_id (new_invoice form usr cart d)"
      "pay_id p' = fresh_id (map pay_id (payments d))" "pay_status p' \<noteq> STATUS_DONE"
      by blast
    with tables prods built(4) show ?thesis using order[of invoice_item "[p']"] by simp
  qed
qed

lemma new_invoice_fresh:
  "i_id (new_invoice form usr cart d) \<notin> i_id ` set (invoices d) \<and>
   i_number (new_invoice form usr cart d) = None"
  using fresh_id_new[of "map i_id (invoices d)"] by (simp add: new_invoice_def)

lemma keys_ok_post:
  assumes "keys_ok d"
  shows "keys_ok (r_db (CheckoutCartView_post gateway form usr meta cart d))"
proof (cases rule: post_step[of gateway form usr meta cart d])
  case untouched
  with assms show ?thesis by simp
next
  case (order items pays)
  let ?inv = "new_invoice form usr cart d"
  note fresh = new_invoice_fresh[of form usr cart d]
  from assms have k: "distinct (map i_id (invoices d))" "distinct (map pay_id (payments d))"
    "distinct (map pay_invoice (payments d))"
    "pay_invoice ` set (payments d) \<subseteq> i_id ` set (invoices d)"
    "ii_product ` set (invoice_items d) \<subseteq> p_id ` set (products d)"
    by (simp_all add: keys_ok_def)
  have newpay: "fresh_id (map pay_id (payments d)) \<notin> pay_id ` set (payments d)"
    using fresh_id_new[of "map pay_id (payments d)"] by simp
  have notref: "i_id ?inv \<notin> pay_invoice ` set (payments d)" using fresh k(4) by blast
  from order(6) show ?thesis
  proof
    assume "pays = []"
    with order k fresh show ?thesis by (auto simp: keys_ok_def)
  next
    assume "\<exists>p'. pays = [p'] \<and> pay_invoice p' = i_id ?inv \<and>
      pay_id p' = fresh_id (map pay_id (payments d)) \<and> pay_status p' \<noteq> STATUS_DONE"
    then obtain p' where "pays = [p']" "pay_invoice p' = i_id ?inv"
      "pay_id p' = fresh_id (map pay_id (payments d))" by blast
    with order k fresh newpay notref show ?thesis by (auto simp: keys_ok_def)
  qed
qed

lemma numbers_ok_post:
  assumes "numbers_ok d"
  shows "numbers_ok (r_db (CheckoutCartView_post gateway form usr meta cart d))"
proof (cases rule: post_step[of gateway form usr meta cart d])
  case untouched
  with assms show ?thesis by simp
next
  case (order items pays)
  let ?xs = "invoices d" and ?ys = "payments d"
  let ?inv = "new_invoice form usr cart d"
  let ?xs' = "?xs @ [?inv]" and ?ys' = "?ys @ pays"
  have none: "i_number ?inv = None" by (simp add: new_invoice_fresh)
  from assms
  have N1: "\<And>k n. k < length ?xs \<Longrightarrow> i_number (?xs ! k) = Some n \<Longrightarrow> 0 < n"
    and N2: "\<And>k k' n. k < length ?xs \<Longrightarrow> k' < length ?xs \<Longrightarrow> i_number (?xs ! k) = Some n \<Longrightarrow>
       i_number (?xs ! k') = Some n \<Longrightarrow> k = k'"
    and N3: "\<And>j. j < length ?ys \<Longrightarrow> pay_status (?ys ! j) = STATUS_DONE \<Longrightarrow>
       \<exists>k < length ?xs. i_id (?xs ! k) = pay_invoice (?ys ! j) \<and> i_number (?xs ! k) \<noteq> None"
    and N4: "\<And>k. k < length ?xs \<Longrightarrow> i_number (?xs ! k) \<noteq> None \<Longrightarrow>
       \<exists>j < length ?ys. pay_invoice (?ys ! j) = i_id (?xs ! k) \<and> pay_status (?ys ! j) = STATUS_DONE"
    unfolding numbers_ok_def by blast+
  have old: "k < length ?xs" if "k < length ?xs'" "i_number (?xs' ! k) \<noteq> None" for k
    using that none by (cases "k = length ?xs") (auto simp: nth_append)
  have oldpay: "j < length ?ys" if "j < length ?ys'" "pay_status (?ys' ! j) = STATUS_DONE" for j
  proof (rule ccontr)
    assume "\<not> j < length ?ys"
    with that(1) order(6) obtain p' where "pays = [p']" "pay_status p' \<noteq> STATUS_DONE" "j = length ?ys"
      by auto
    with that(2) show False by (simp add: nth_append)
  qed
  have P1: "0 < n" if "k < length ?xs'" "i_number (?xs' ! k) = Some n" for k n
  proof -
    from old[OF that(1)] that(2) have "k < length ?xs" by simp
    with that(2) N1[of k n] show ?thesis by (simp add: nth_append)
  qed
  have P2: "k = k'" if "k < length ?xs'" "k' < length ?xs'"
    "i_number (?xs' ! k) = Some n" "i_number (?xs' ! k') = Some n" for k k' n
  proof -
    from old[OF that(1)] that(3) have a: "k < length ?xs" by simp
    from old[OF that(2)] that(4) have b: "k' < length ?xs" by simp
    from a b that(3,4) N2[of k k' n] show ?thesis by (simp add: nth_append)
  qed
  have P3: "\<exists>k < length ?xs'. i_id (?xs' ! k) = pay_invoice (?ys' ! j) \<and> i_number (?xs' ! k) \<noteq> None"
    if "j < length ?ys'" "pay_status (?ys' ! j) = STATUS_DONE" for j
  proof -
    from oldpay[OF that] have j: "j < length ?ys" .
    with that(2) have "pay_status (?ys ! j) = STATUS_DONE" by (simp add: nth_append)
    from N3[OF j this] obtain k where "k < length ?xs" "i_id (?xs ! k) = pay_invoice (?ys ! j)"
      "i_number (?xs ! k) \<noteq> None" by blast
    with j show ?thesis by (intro exI[of _ k]) (simp add: nth_append)
  qed
  have P4: "\<exists>j < length ?ys'. pay_invoice (?ys' ! j) = i_id (?xs' ! k) \<and>
      pay_status (?ys' ! j) = STATUS_DONE"
    if "k < length ?xs'" "i_number (?xs' ! k) \<noteq> None" for k
  proof -
    from old[OF that] have k: "k < length ?xs" .
    with that(2) have "i_number (?xs ! k) \<noteq> None" by (simp add: nth_append)
    from N4[OF k this] obtain j where "j < length ?ys" "pay_invoice (?ys ! j) = i_id (?xs ! k)"
      "pay_status (?ys ! j) = STATUS_DONE" by blast
    with k show ?thesis by (intro exI[of _ j]) (simp add: nth_append)
  qed
  show ?thesis
    unfolding numbers_ok_def order(2,5) using P1 P2 P3 P4 by blast
qed

lemma map_update_same:
  assumes "f x = f (xs ! k)"
  shows "map f (xs[k := x]) = map f xs"
proof (cases "k < length xs")
  case True
  have "(map f xs)[k := map f xs ! k] = map f xs" by (rule list_update_id)
  with assms True show ?thesis by (simp add: map_update)
next
  case False
  then show ?thesis by (simp add: list_update_beyond)
qed

lemma keys_ok_verify:
  assumes keys: "keys_ok d" and nums: "numbers_ok d"
  shows "keys_ok (r_db (VerifyView_get gateway status authority cart d))"
  using keys nums
proof (cases rule: verify_step[where gateway = gateway and status = status
      and authority = authority and cart = cart])
  case unchanged
  with keys show ?thesis by simp
next
  case (failed j)
  let ?ys = "payments d"
  have "map pay_id (?ys[j := (?ys ! j)\<lparr>pay_status := STATUS_ERROR\<rparr>]) = map pay_id ?ys"
    "map pay_invoice (?ys[j := (?ys ! j)\<lparr>pay_status := STATUS_ERROR\<rparr>]) = map pay_invoice ?ys"
    by (simp_all add: map_update_same)
  moreover from this(2)
  have "pay_invoice ` set (?ys[j := (?ys ! j)\<lparr>pay_status := STATUS_ERROR\<rparr>]) =
      pay_invoice ` set ?ys" by (metis set_map)
  ultimately show ?thesis using keys unfolding failed(3) keys_ok_def by simp
next
  case (settled j k ref_id)
  let ?R = "VerifyView_get gateway status authority cart d"
  let ?ys = "payments d" and ?xs = "invoices d"
  have a: "map pay_id (payments (r_db ?R)) = map pay_id ?ys"
    "map pay_invoice (payments (r_db ?R)) = map pay_invoice ?ys"
    unfolding settled(7) by (simp_all add: map_update_same)
  have b: "map i_id (invoices (r_db ?R)) = map i_id ?xs"
    unfolding settled(8) by (simp add: map_update_same)
  from a(2) have c: "pay_invoice ` set (payments (r_db ?R)) = pay_invoice ` set ?ys"
    by (metis set_map)
  from b have e: "i_id ` set (invoices (r_db ?R)) = i_id ` set ?xs" by (metis set_map)
  from settled(10) have f: "p_id ` set (products (r_db ?R)) = p_id ` set (products d)"
    by (metis set_map)
  show ?thesis using keys unfolding keys_ok_def a b c e f settled(9) by simp
qed

lemma numbers_ok_verify:
  assumes keys: "keys_ok d" and nums: "numbers_ok d"
  shows "numbers_ok (r_db (VerifyView_get gateway status authority cart d))"
proof -
  let ?xs = "invoices d" and ?ys = "payments d"
  from nums
  have N1: "\<And>k n. k < length ?xs \<Longrightarrow> i_number (?xs ! k) = Some n \<Longrightarrow> 0 < n"
    and N2: "\<And>k k' n. k < length ?xs \<Longrightarrow> k' < length ?xs \<Longrightarrow> i_number (?xs ! k) = Some n \<Longrightarrow>
       i_number (?xs ! k') = Some n \<Longrightarrow> k = k'"
    and N3: "\<And>j. j < length ?ys \<Longrightarrow> pay_status (?ys ! j) = STATUS_DONE \<Longrightarrow>
       \<exists>k < length ?xs. i_id (?xs ! k) = pay_invoice (?ys ! j) \<and> i_number (?xs ! k) \<noteq> None"
    and N4: "\<And>k. k < length ?xs \<Longrightarrow> i_number (?xs ! k) \<noteq> None \<Longrightarrow>
       \<exists>j < length ?ys. pay_invoice (?ys ! j) = i_id (?xs ! k) \<and> pay_status (?ys ! j) = STATUS_DONE"
    unfolding numbers_ok_def by blast+
  from keys nums show ?thesis
  proof (cases rule: verify_step[where gateway = gateway and status = status
        and authority = authority and cart = cart])
    case unchanged
    with nums show ?thesis by simp
  next
    case (failed j)
    let ?ys' = "?ys[j := (?ys ! j)\<lparr>pay_status := STATUS_ERROR\<rparr>]"
    have P3: "\<exists>k < length ?xs. i_id (?xs ! k) = pay_invoice (?ys' ! j1) \<and> i_number (?xs ! k) \<noteq> None"
      if "j1 < length ?ys'" "pay_status (?ys' ! j1) = STATUS_DONE" for j1
    proof -
      from that have "j1 \<noteq> j" by (auto simp: nth_list_update)
      with that N3[of j1] show ?thesis by (simp add: nth_list_update)
    qed
    have P4: "\<exists>j1 < length ?ys'. pay_invoice (?ys' ! j1) = i_id (?xs ! k) \<and>
        pay_status (?ys' ! j1) = STATUS_DONE"
      if "k < length ?xs" "i_number (?xs ! k) \<noteq> None" for k
    proof -
      from N4[OF that] obtain j1 where j1: "j1 < length ?ys"
        "pay_invoice (?ys ! j1) = i_id (?xs ! k)" "pay_status (?ys ! j1) = STATUS_DONE" by blast
      with failed(2) have "j1 \<noteq> j" by auto
      with j1 show ?thesis by (intro exI[of _ j1]) (simp add: nth_list_update)
    qed
    show ?thesis
      unfolding numbers_ok_def failed(3) using N1 N2 P3 P4 by simp
  next
    case (settled j k ref_id)
    let ?R = "VerifyView_get gateway status authority cart d"
    let ?m = "next_number (number_max ?xs)"
    let ?xs' = "?xs[k := (?xs ! k)\<lparr>i_number := Some ?m\<rparr>]"
    let ?ys' = "?ys[j := (?ys ! j)\<lparr>pay_ref := ref_id, pay_status := STATUS_DONE\<rparr>]"
    have pos: "\<forall>i \<in> set ?xs. \<forall>n. i_number i = Some n \<longrightarrow> 0 < n"
      using N1 by (auto simp: in_set_conv_nth)
    have m: "0 < ?m" by (rule next_number_positive[OF pos])
    have old: "n < ?m" if "k1 < length ?xs" "i_number (?xs ! k1) = Some n" for k1 n
      using number_max_bound[of "?xs ! k1" ?xs n] that by simp
    have P1: "0 < n" if "k1 < length ?xs'" "i_number (?xs' ! k1) = Some n" for k1 n
      using that m N1[of k1 n] by (cases "k1 = k") (simp_all add: nth_list_update)
    have P2: "k1 = k2" if "k1 < length ?xs'" "k2 < length ?xs'"
      "i_number (?xs' ! k1) = Some n" "i_number (?xs' ! k2) = Some n" for k1 k2 n
    proof (cases "k1 = k")
      case True
      show ?thesis
      proof (cases "k2 = k")
        case True
        with \<open>k1 = k\<close> show ?thesis by simp
      next
        case False
        with True that have "i_number (?xs ! k2) = Some ?m" by (simp add: nth_list_update)
        with old[of k2 ?m] that(2) show ?thesis by simp
      qed
    next
      case False
      show ?thesis
      proof (cases "k2 = k")
        case True
        with False that have "i_number (?xs ! k1) = Some ?m" by (simp add: nth_list_update)
        with old[of k1 ?m] that(1) show ?thesis by simp
      next
        case k2: False
        with False that N2[of k1 k2 n] show ?thesis by (simp add: nth_list_update)
      qed
    qed
    have P3: "\<exists>k1 < length ?xs'. i_id (?xs' ! k1) = pay_invoice (?ys' ! j1) \<and>
        i_number (?xs' ! k1) \<noteq> None"
      if "j1 < length ?ys'" "pay_status (?ys' ! j1) = STATUS_DONE" for j1
    proof (cases "j1 = j")
      case True
      with settled(1,3,4) show ?thesis by (intro exI[of _ k]) (simp add: nth_list_update)
    next
      case False
      with that have "j1 < length ?ys" "pay_status (?ys ! j1) = STATUS_DONE"
        by (simp_all add: nth_list_update)
      from N3[OF this] obtain k1 where k1: "k1 < length ?xs"
        "i_id (?xs ! k1) = pay_invoice (?ys ! j1)" "i_number (?xs ! k1) \<noteq> None" by blast
      with settled(5) have "k1 \<noteq> k" by auto
      with k1 False show ?thesis by (intro exI[of _ k1]) (simp add: nth_list_update)
    qed
    have P4: "\<exists>j1 < length ?ys'. pay_invoice (?ys' ! j1) = i_id (?xs' ! k1) \<and>
        pay_status (?ys' ! j1) = STATUS_DONE"
      if "k1 < length ?xs'" "i_number (?xs' ! k1) \<noteq> None" for k1
    proof (cases "k1 = k")
      case True
      with settled(1,3,4) show ?thesis by (intro exI[of _ j]) (simp add: nth_list_update)
    next
      case False
      with that have "k1 < length ?xs" "i_number (?xs ! k1) \<noteq> None"
        by (simp_all add: nth_list_update)
      from N4[OF this] obtain j1 where j1: "j1 < length ?ys"
        "pay_invoice (?ys ! j1) = i_id (?xs ! k1)" "pay_status (?ys ! j1) = STATUS_DONE" by blast
      with settled(2) have "j1 \<noteq> j" by auto
      with j1 False show ?thesis by (intro exI[of _ j1]) (simp add: nth_list_update)
    qed
    show ?thesis
      unfolding numbers_ok_def settled(7,8) using P1 P2 P3 P4 by blast
  qed
qed

lemma reachable_ok:
  assumes "reachable d"
  shows "keys_ok d \<and> numbers_ok d"
  using assms
proof (induction rule: reachable.induct)
  case (start d)
  then show ?case by (simp add: keys_ok_def numbers_ok_def)
next
  case (catalogue d ps)
  then show ?case by (simp add: keys_ok_def numbers_ok_def)
next
  case (checkout d gateway form usr meta cart)
  then show ?case using keys_ok_post numbers_ok_post by blast
next
  case (verify d gateway status authority cart)
  then show ?case using keys_ok_verify numbers_ok_verify by blast
qed

lemma shop_checkout_2:
  "CheckoutCartView_post (\<lambda>rq. Body reply_authorized_2) valid_form buyer buyer_meta [(5, 1)]
     shop_pending =
     \<lparr>r_response = RedirectStartPay ''A2'', r_db = shop_two_pending, r_cart = [(5, 1)],
      r_sent = [\<lparr>rd_amount = 98, rd_invoice = 2, rd_email = ''buyer@example.org''\<rparr>]\<rparr>"
proof -
  have fl: "\<lfloor>981 / 10 :: rat\<rfloor> = 98" by (rule floor_unique) simp_all
  show ?thesis
    by (simp add: CheckoutCartView_post_def new_invoice_def new_payment_def
        get_cart_total_price_def product_ids_def filter_id_in_def get_product_def
        shop_pending_def shop_two_pending_def tea_def tea_invoice_def tea_invoice_2_def
        tea_line_def tea_line_2_def tea_payment_def tea_payment_2_def valid_form_def
        buyer_def buyer_meta_def fresh_id_def get_user_ip_def authorize_reply_def
        read_reply_def reply_authorized_2_def dict_get_def insert_payment_def db_error_def
        column_text_def to_python_def py_str_def
        py_round2_def round_half_even_def py_int_def fl)
qed

lemma shop_verify_second:
  "VerifyView_get (\<lambda>vd. Body reply_verified) (Some ''OK'') (Some ''A2'') [] shop_two_pending =
     \<lparr>r_response = PaymentSuccess (PInt 777) 98,
      r_db = \<lparr>products = [tea\<lparr>p_count := 9\<rparr>],
              invoices = [tea_invoice, tea_invoice_2\<lparr>i_number := Some 1\<rparr>],
              invoice_items = [tea_line, tea_line_2],
              payments = [tea_payment,
                          tea_payment_2\<lparr>pay_ref := PInt 777, pay_status := STATUS_DONE\<rparr>]\<rparr>,
      r_cart = [], r_sent = [\<lparr>vd_amount = 98, vd_authority = ''A2''\<rparr>]\<rparr>"
proof -
  have fl: "\<lfloor>981 / 10 :: rat\<rfloor> = 98" by (rule floor_unique) simp_all
  show ?thesis
    by (simp add: VerifyView_get_def verify_reply_def reply_verified_def dict_get_def
        shop_two_pending_def tea_def tea_invoice_def tea_invoice_2_def tea_line_def
        tea_line_2_def tea_payment_def tea_payment_2_def save_payment_def
        save_product_def save_invoice_def get_invoice_def get_product_def number_max_def
        List.map_filter_def next_number_def py_int_def fl)
qed

lemma shop_verify_first_after:
  "VerifyView_get (\<lambda>vd. Body reply_verified) (Some ''OK'') (Some ''A1'') []
     \<lparr>products = [tea\<lparr>p_count := 9\<rparr>],
      invoices = [tea_invoice, tea_invoice_2\<lparr>i_number := Some 1\<rparr>],
      invoice_items = [tea_line, tea_line_2],
      payments = [tea_payment,
                  tea_payment_2\<lparr>pay_ref := PInt 777, pay_status := STATUS_DONE\<rparr>]\<rparr> =
     \<lparr>r_response = PaymentSuccess (PInt 777) 196,
      r_db = \<lparr>products = [tea\<lparr>p_count := 7\<rparr>],
              invoices = [tea_invoice\<lparr>i_number := Some 2\<rparr>,
                          tea_invoice_2\<lparr>i_number := Some 1\<rparr>],
              invoice_items = [tea_line, tea_line_2],
              payments = [tea_payment\<lparr>pay_ref := PInt 777, pay_status := STATUS_DONE\<rparr>,
                          tea_payment_2\<lparr>pay_ref := PInt 777, pay_status := STATUS_DONE\<rparr>]\<rparr>,
      r_cart = [], r_sent = [\<lparr>vd_amount = 196, vd_authority = ''A1''\<rparr>]\<rparr>"
proof -
  have fl: "\<lfloor>981 / 5 :: rat\<rfloor> = 196" by (rule floor_unique) simp_all
  show ?thesis
    by (simp add: VerifyView_get_def verify_reply_def reply_verified_def dict_get_def
        tea_def tea_invoice_def tea_invoice_2_def tea_line_def
        tea_line_2_def tea_payment_def tea_payment_2_def save_payment_def
        save_product_def save_invoice_def get_invoice_def get_product_def number_max_def
        List.map_filter_def next_number_def py_int_def fl)
qed

lemma reachable_shop_two_pending: "reachable shop_two_pending"
  using reachable.checkout[OF reachable_shop_pending,
      of "\<lambda>rq. Body reply_authorized_2" valid_form buyer buyer_meta "[(5, 1)]"]
  by (simp add: shop_checkout_2)

text \<open>
  C3. In every database that checkout submissions and verify callbacks produce from one
  without orders:
  \<^item> every invoice number that is set is strictly positive, and no two invoice rows have
    the same number;
  \<^item> every payment with status done belongs to an invoice whose number is set, and every
    invoice whose number is set has a payment with status done: an invoice is numbered
    exactly when its payment was settled;
  \<^item> a verify callback that answers with the success page sets the number of exactly one
    invoice, whose number was null and which is the invoice of the payment that was pending
    and is done afterwards; the new number is greater than every number set before (numbers
    follow the order of settlement). A verify callback that answers with anything else
    leaves the invoice table as it is. So a number that is set never changes, and an
    invoice whose payment does not settle keeps the number null;
  \<^item> a checkout submission leaves the invoice table as it is or appends one invoice with
    the number null.
\<close>

theorem invoice_numbers:
  assumes "reachable d"
  shows "(\<forall>i \<in> set (invoices d). \<forall>n. i_number i = Some n \<longrightarrow> 0 < n) \<and>
    (\<forall>k < length (invoices d). \<forall>k' < length (invoices d). \<forall>n.
       i_number (invoices d ! k) = Some n \<and> i_number (invoices d ! k') = Some n \<longrightarrow> k = k') \<and>
    (\<forall>p \<in> set (payments d). pay_status p = STATUS_DONE \<longrightarrow>
       (\<exists>i \<in> set (invoices d). i_id i = pay_invoice p \<and> (\<exists>n. i_number i = Some n \<and> 0 < n))) \<and>
    (\<forall>i \<in> set (invoices d). i_number i \<noteq> None \<longrightarrow>
       (\<exists>p \<in> set (payments d). pay_invoice p = i_id i \<and> pay_status p = STATUS_DONE)) \<and>
    (((\<exists>ref_id amount. r_response (VerifyView_get gateway status authority cart d) =
         PaymentSuccess ref_id amount) \<and>
      (\<exists>j k m. j < length (payments d) \<and> pay_status (payments d ! j) = STATUS_PENDING \<and>
         k < length (invoices d) \<and> pay_invoice (payments d ! j) = i_id (invoices d ! k) \<and>
         i_number (invoices d ! k) = None \<and>
         0 < m \<and> (\<forall>i \<in> set (invoices d). \<forall>n. i_number i = Some n \<longrightarrow> n < m) \<and>
         invoices (r_db (VerifyView_get gateway status authority cart d)) =
           (invoices d)[k := (invoices d ! k)\<lparr>i_number := Some m\<rparr>] \<and>
         pay_status (payments (r_db (VerifyView_get gateway status authority cart d)) ! j) =
           STATUS_DONE)) \<or>
     ((\<forall>ref_id amount. r_response (VerifyView_get gateway status authority cart d) \<noteq>
         PaymentSuccess ref_id amount) \<and>
      invoices (r_db (VerifyView_get gateway status authority cart d)) = invoices d)) \<and>
    (invoices (r_db (CheckoutCartView_post gateway' form usr meta cart' d)) = invoices d \<or>
     (\<exists>inv. i_number inv = None \<and> i_id inv \<notin> i_id ` set (invoices d) \<and>
        invoices (r_db (CheckoutCartView_post gateway' form usr meta cart' d)) =
          invoices d @ [inv]))"
proof -
  let ?xs = "invoices d" and ?ys = "payments d"
  let ?R = "VerifyView_get gateway status authority cart d"
  from reachable_ok[OF assms] have keys: "keys_ok d" and nums: "numbers_ok d" by simp_all
  from nums
  have N1: "\<And>k n. k < length ?xs \<Longrightarrow> i_number (?xs ! k) = Some n \<Longrightarrow> 0 < n"
    and N2: "\<forall>k < length ?xs. \<forall>k' < length ?xs. \<forall>n.
       i_number (?xs ! k) = Some n \<and> i_number (?xs ! k') = Some n \<longrightarrow> k = k'"
    and N3: "\<And>j. j < length ?ys \<Longrightarrow> pay_status (?ys ! j) = STATUS_DONE \<Longrightarrow>
       \<exists>k < length ?xs. i_id (?xs ! k) = pay_invoice (?ys ! j) \<and> i_number (?xs ! k) \<noteq> None"
    and N4: "\<And>k. k < length ?xs \<Longrightarrow> i_number (?xs ! k) \<noteq> None \<Longrightarrow>
       \<exists>j < length ?ys. pay_invoice (?ys ! j) = i_id (?xs ! k) \<and> pay_status (?ys ! j) = STATUS_DONE"
    unfolding numbers_ok_def by blast+
  have c1: "\<forall>i \<in> set ?xs. \<forall>n. i_number i = Some n \<longrightarrow> 0 < n"
    using N1 by (auto simp: in_set_conv_nth)
  have c3: "\<forall>p \<in> set ?ys. pay_status p = STATUS_DONE \<longrightarrow>
       (\<exists>i \<in> set ?xs. i_id i = pay_invoice p \<and> (\<exists>n. i_number i = Some n \<and> 0 < n))"
  proof (intro ballI impI)
    fix p assume "p \<in> set ?ys" "pay_status p = STATUS_DONE"
    then obtain j where "j < length ?ys" "?ys ! j = p" by (auto simp: in_set_conv_nth)
    with N3[of j] \<open>pay_status p = STATUS_DONE\<close> obtain k where k: "k < length ?xs"
      "i_id (?xs ! k) = pay_invoice p" "i_number (?xs ! k) \<noteq> None" by auto
    then obtain n where n: "i_number (?xs ! k) = Some n" by auto
    with N1[OF k(1) this] k show "\<exists>i \<in> set ?xs. i_id i = pay_invoice p \<and>
        (\<exists>n. i_number i = Some n \<and> 0 < n)"
      by (intro bexI[of _ "?xs ! k"]) auto
  qed
  have c4: "\<forall>i \<in> set ?xs. i_number i \<noteq> None \<longrightarrow>
       (\<exists>p \<in> set ?ys. pay_invoice p = i_id i \<and> pay_status p = STATUS_DONE)"
  proof (intro ballI impI)
    fix i assume "i \<in> set ?xs" "i_number i \<noteq> None"
    then obtain k where "k < length ?xs" "?xs ! k = i" by (auto simp: in_set_conv_nth)
    with N4[of k] \<open>i_number i \<noteq> None\<close> obtain j where "j < length ?ys"
      "pay_invoice (?ys ! j) = i_id i" "pay_status (?ys ! j) = STATUS_DONE" by auto
    then show "\<exists>p \<in> set ?ys. pay_invoice p = i_id i \<and> pay_status p = STATUS_DONE"
      by (intro bexI[of _ "?ys ! j"]) auto
  qed
  from keys nums
  have c5: "((\<exists>ref_id amount. r_response ?R = PaymentSuccess ref_id amount) \<and>
      (\<exists>j k m. j < length ?ys \<and> pay_status (?ys ! j) = STATUS_PENDING \<and>
         k < length ?xs \<and> pay_invoice (?ys ! j) = i_id (?xs ! k) \<and>
         i_number (?xs ! k) = None \<and>
         0 < m \<and> (\<forall>i \<in> set ?xs. \<forall>n. i_number i = Some n \<longrightarrow> n < m) \<and>
         invoices (r_db ?R) = ?xs[k := (?xs ! k)\<lparr>i_number := Some m\<rparr>] \<and>
         pay_status (payments (r_db ?R) ! j) = STATUS_DONE)) \<or>
     ((\<forall>ref_id amount. r_response ?R \<noteq> PaymentSuccess ref_id amount) \<and>
      invoices (r_db ?R) = ?xs)"
  proof (cases rule: verify_step[where gateway = gateway and status = status
        and authority = authority and cart = cart])
    case unchanged
    then show ?thesis by simp
  next
    case (failed j)
    then show ?thesis by simp
  next
    case (settled j k ref_id)
    let ?m = "next_number (number_max ?xs)"
    have "0 < ?m" by (rule next_number_positive[OF c1])
    moreover have "\<forall>i \<in> set ?xs. \<forall>n. i_number i = Some n \<longrightarrow> n < ?m"
      using number_max_bound by blast
    moreover have "pay_status (payments (r_db ?R) ! j) = STATUS_DONE"
      unfolding settled(7) using settled(1) by simp
    ultimately have "\<exists>j k m. j < length ?ys \<and> pay_status (?ys ! j) = STATUS_PENDING \<and>
         k < length ?xs \<and> pay_invoice (?ys ! j) = i_id (?xs ! k) \<and>
         i_number (?xs ! k) = None \<and>
         0 < m \<and> (\<forall>i \<in> set ?xs. \<forall>n. i_number i = Some n \<longrightarrow> n < m) \<and>
         invoices (r_db ?R) = ?xs[k := (?xs ! k)\<lparr>i_number := Some m\<rparr>] \<and>
         pay_status (payments (r_db ?R) ! j) = STATUS_DONE"
      using settled by (intro exI[of _ j] exI[of _ k] exI[of _ ?m]) simp
    with settled(6) show ?thesis by simp
  qed
  from c1 N2 c3 c4 c5 post_invoices_step[of gateway' form usr meta cart' d]
  show ?thesis by blast
qed

theorem invoice_numbers_witness:
  "reachable (r_db (VerifyView_get (\<lambda>vd. Body reply_verified) (Some ''OK'') (Some ''A2'') []
      shop_two_pending)) \<and>
   map i_number (invoices shop_two_pending) = [None, None] \<and>
   map i_number (invoices (r_db (VerifyView_get (\<lambda>vd. Body reply_verified) (Some ''OK'')
      (Some ''A2'') [] shop_two_pending))) = [None, Some 1] \<and>
   r_response (VerifyView_get (\<lambda>vd. Body reply_verified) (Some ''OK'') (Some ''A1'') []
      (r_db (VerifyView_get (\<lambda>vd. Body reply_verified) (Some ''OK'') (Some ''A2'') []
         shop_two_pending))) = PaymentSuccess (PInt 777) 196 \<and>
   map i_number (invoices (r_db (VerifyView_get (\<lambda>vd. Body reply_verified) (Some ''OK'')
      (Some ''A1'') []
      (r_db (VerifyView_get (\<lambda>vd. Body reply_verified) (Some ''OK'') (Some ''A2'') []
         shop_two_pending))))) = [Some 2, Some 1] \<and>
   map pay_status (payments (r_db (VerifyView_get (\<lambda>vd. Body reply_verified) (Some ''OK'')
      (Some ''A1'') []
      (r_db (VerifyView_get (\<lambda>vd. Body reply_verified) (Some ''OK'') (Some ''A2'') []
         shop_two_pending))))) = [STATUS_DONE, STATUS_DONE]"
proof -
  let ?gw = "\<lambda>vd :: verify_data. Body reply_verified"
  let ?d2 = "r_db (VerifyView_get ?gw (Some ''OK'') (Some ''A2'') [] shop_two_pending)"
  let ?R = "VerifyView_get ?gw (Some ''OK'') (Some ''A1'') [] ?d2"
  have r: "reachable ?d2" by (rule reachable.verify[OF reachable_shop_two_pending])
  have success: "r_response ?R = PaymentSuccess (PInt 777) 196"
    by (simp add: shop_verify_second shop_verify_first_after)
  note step = invoice_numbers[OF r, of ?gw "Some ''OK''" "Some ''A1''" "[]"
      "\<lambda>rq. RequestFailed" valid_form buyer buyer_meta "[]",
      THEN conjunct2, THEN conjunct2, THEN conjunct2, THEN conjunct2, THEN conjunct1]
  from step success obtain j k m where
    "k < length (invoices ?d2)" "i_number (invoices ?d2 ! k) = None"
    "\<forall>i \<in> set (invoices ?d2). \<forall>n. i_number i = Some n \<longrightarrow> n < m"
    "invoices (r_db ?R) = (invoices ?d2)[k := (invoices ?d2 ! k)\<lparr>i_number := Some m\<rparr>]"
    by auto
  then have numbered: "\<exists>k < length (invoices ?d2). \<exists>m.
      invoices (r_db ?R) = (invoices ?d2)[k := (invoices ?d2 ! k)\<lparr>i_number := Some m\<rparr>]"
    by blast
  from numbered r success show ?thesis
    by (simp add: shop_verify_second shop_verify_first_after)
       (simp add: shop_two_pending_def tea_invoice_def tea_invoice_2_def tea_payment_def
          tea_payment_2_def)
qed

section \<open>Terminal states and idempotence\<close>

lemma save_payment_keeps_settled:
  assumes keys: "distinct (map pay_id (payments d))"
    and pin: "p \<in> set (payments d)" and pst: "pay_status p = STATUS_PENDING"
    and pid: "pay_id p' = pay_id p"
  shows "length (payments (save_payment p' d)) = length (payments d) \<and>
    (\<forall>k < length (payments d). pay_status (payments d ! k) \<noteq> STATUS_PENDING \<longrightarrow>
       payments (save_payment p' d) ! k = payments d ! k)"
proof -
  have "payments (save_payment p' d) = map (\<lambda>q. if q = p then p' else q) (payments d)"
    using replace_by_key[OF keys pin, of p'] pid by (simp add: save_payment_def)
  with pst show ?thesis by auto
qed

lemma verify_payments_step:
  assumes keys: "distinct (map pay_id (payments d))"
  shows "length (payments (r_db (VerifyView_get gateway status authority cart d))) =
           length (payments d) \<and>
    (\<forall>k < length (payments d). pay_status (payments d ! k) \<noteq> STATUS_PENDING \<longrightarrow>
       payments (r_db (VerifyView_get gateway status authority cart d)) ! k = payments d ! k)"
proof (cases rule: VerifyView_get_cases[of gateway status authority cart d])
  case cancelled
  then show ?thesis by simp
next
  case (no_payment a)
  then show ?thesis by simp
next
  case multiple
  then show ?thesis by simp
next
  case (not_ok a p)
  from filter_single_mem[OF not_ok(3)]
  have "p \<in> set (payments d)" "pay_status p = STATUS_PENDING" by auto
  from save_payment_keeps_settled[OF keys this, of "p\<lparr>pay_status := STATUS_ERROR\<rparr>"] not_ok(5)
  show ?thesis by simp
next
  case (network a p)
  then show ?thesis by simp
next
  case (reply a p vr)
  let ?vd = "\<lparr>vd_amount = py_int (pay_total p), vd_authority = a\<rparr>"
  from filter_single_mem[OF reply(3)]
  have pin: "p \<in> set (payments d)" "pay_status p = STATUS_PENDING" by auto
  note keep = save_payment_keeps_settled[OF keys pin]
  show ?thesis
  proof (cases rule: verify_reply_cases[of vr p ?vd cart d])
    case (raised e)
    with reply(6) show ?thesis by simp
  next
    case not_verified
    with reply(6) keep[of "p\<lparr>pay_status := STATUS_ERROR\<rparr>"] show ?thesis by simp
  next
    case (no_invoice ref_id)
    with reply(6) keep[of "p\<lparr>pay_ref := ref_id, pay_status := STATUS_DONE\<rparr>"]
    show ?thesis by simp
  next
    case (stock_raised ref_id invoice e d2)
    from stock_loop_other_tables[OF stock_raised(2)]
    have "payments d2 = payments (save_payment (p\<lparr>pay_ref := ref_id, pay_status := STATUS_DONE\<rparr>) d)"
      by simp
    with reply(6) stock_raised(3) keep[of "p\<lparr>pay_ref := ref_id, pay_status := STATUS_DONE\<rparr>"]
    show ?thesis by simp
  next
    case (success ref_id invoice d2)
    from stock_loop_other_tables[OF success(2)]
    have "payments d2 = payments (save_payment (p\<lparr>pay_ref := ref_id, pay_status := STATUS_DONE\<rparr>) d)"
      by simp
    with reply(6) success(3) keep[of "p\<lparr>pay_ref := ref_id, pay_status := STATUS_DONE\<rparr>"]
    show ?thesis by (simp add: save_invoice_def)
  qed
qed

lemma post_payments_step:
  "take (length (payments d))
     (payments (r_db (CheckoutCartView_post gateway form usr meta cart d))) = payments d"
proof (cases rule: CheckoutCartView_post_cases[of form gateway usr meta cart d])
  case invalid
  then show ?thesis by simp
next
  case (raised e)
  then show ?thesis by simp
next
  case (built invoice_item resp d3)
  from built_db[OF built(3)] built(4) show ?thesis by auto
qed

lemma verify_no_payment:
  assumes "a \<noteq> []"
    and "filter (\<lambda>q. pay_authority q = PStr a \<and> pay_status q = STATUS_PENDING) (payments d) = []"
  shows "VerifyView_get gateway status (Some a) cart d =
     \<lparr>r_response = PaymentFailed ''There is no payment document!'', r_db = d, r_cart = cart,
      r_sent = []\<rparr>"
  using assms by (simp add: VerifyView_get_def)

lemma verify_settled_no_pending:
  assumes "(\<exists>ref_id amount. r_response (VerifyView_get gateway status (Some a) cart d) =
              PaymentSuccess ref_id amount) \<or>
           r_response (VerifyView_get gateway status (Some a) cart d) =
              PaymentFailed ''Payment not verified!!'' \<or>
           r_response (VerifyView_get gateway status (Some a) cart d) =
              PaymentFailed ''Payment was canceled by the user.''"
  shows "a \<noteq> [] \<and>
     filter (\<lambda>q. pay_authority q = PStr a \<and> pay_status q = STATUS_PENDING)
       (payments (r_db (VerifyView_get gateway status (Some a) cart d))) = []"
proof (cases rule: VerifyView_get_cases[of gateway status "Some a" cart d])
  case cancelled
  with assms show ?thesis by simp
next
  case (no_payment a')
  with assms show ?thesis by simp
next
  case multiple
  with assms show ?thesis by simp
next
  case (not_ok a' p)
  then have pend: "filter (\<lambda>q. pay_authority q = PStr a \<and> pay_status q = STATUS_PENDING)
      (payments d) = [p]" and a: "a \<noteq> []" by auto
  from no_pending_after_save[OF pend, of "p\<lparr>pay_status := STATUS_ERROR\<rparr>"] not_ok(5) a
  show ?thesis by (simp add: save_payment_def)
next
  case (network a' p)
  with assms show ?thesis by simp
next
  case (reply a' p vr)
  then have pend: "filter (\<lambda>q. pay_authority q = PStr a \<and> pay_status q = STATUS_PENDING)
      (payments d) = [p]" and a: "a \<noteq> []" and aa: "a' = a" by auto
  let ?vd = "\<lparr>vd_amount = py_int (pay_total p), vd_authority = a\<rparr>"
  note run = reply(6)[unfolded aa]
  show ?thesis
  proof (cases rule: verify_reply_cases[of vr p ?vd cart d])
    case (raised e)
    with assms run show ?thesis by simp
  next
    case not_verified
    from no_pending_after_save[OF pend, of "p\<lparr>pay_status := STATUS_ERROR\<rparr>"] not_verified run a
    show ?thesis by (simp add: save_payment_def)
  next
    case (no_invoice ref_id)
    with assms run show ?thesis by simp
  next
    case (stock_raised ref_id invoice e d2)
    with assms run show ?thesis by simp
  next
    case (success ref_id invoice d2)
    from stock_loop_other_tables[OF success(2)]
    have "payments d2 = payments (save_payment (p\<lparr>pay_ref := ref_id, pay_status := STATUS_DONE\<rparr>) d)"
      by simp
    with no_pending_after_save[OF pend, of "p\<lparr>pay_ref := ref_id, pay_status := STATUS_DONE\<rparr>"]
      success(3) run a
    show ?thesis by (simp add: save_payment_def save_invoice_def)
  qed
qed

text \<open>
  C1. Settled payments are terminal, and settlement is idempotent:
  \<^item> a verify callback keeps the number of payment rows and leaves every row whose status
    is done or error exactly as it is (primary keys of payments being unique), so the only
    change of a status is from pending to done or to error;
  \<^item> a checkout submission leaves every payment row it finds as it is (it can only add
    one);
  \<^item> when a verify callback for the authority \<open>a\<close> has settled a payment (it answered
    with the success page, with "Payment not verified!!" or with "Payment was canceled by
    the user."), a further callback for \<open>a\<close>, whatever its Status, the reply of the
    gateway and the cart, finds no pending payment: it renders the failure "There is no
    payment document!", sends nothing to the gateway and leaves the whole database
    (payments, invoices, invoice items, product counts) and the cart unchanged.
\<close>

theorem settlement_terminal_idempotent:
  "(distinct (map pay_id (payments d)) \<longrightarrow>
      length (payments (r_db (VerifyView_get gateway status authority cart d))) =
        length (payments d) \<and>
      (\<forall>k < length (payments d). pay_status (payments d ! k) \<noteq> STATUS_PENDING \<longrightarrow>
         payments (r_db (VerifyView_get gateway status authority cart d)) ! k =
           payments d ! k)) \<and>
   take (length (payments d))
     (payments (r_db (CheckoutCartView_post gateway' form usr meta cart' d))) = payments d \<and>
   ((\<exists>ref_id amount. r_response (VerifyView_get gateway status (Some a) cart d) =
        PaymentSuccess ref_id amount) \<or>
    r_response (VerifyView_get gateway status (Some a) cart d) =
        PaymentFailed ''Payment not verified!!'' \<or>
    r_response (VerifyView_get gateway status (Some a) cart d) =
        PaymentFailed ''Payment was canceled by the user.'' \<longrightarrow>
      VerifyView_get gateway2 status2 (Some a) cart2
          (r_db (VerifyView_get gateway status (Some a) cart d)) =
        \<lparr>r_response = PaymentFailed ''There is no payment document!'',
         r_db = r_db (VerifyView_get gateway status (Some a) cart d),
         r_cart = cart2, r_sent = []\<rparr>)"
proof (intro conjI impI)
  assume "distinct (map pay_id (payments d))"
  from verify_payments_step[OF this, of gateway status authority cart]
  show "length (payments (r_db (VerifyView_get gateway status authority cart d))) =
        length (payments d)"
    and "\<forall>k < length (payments d). pay_status (payments d ! k) \<noteq> STATUS_PENDING \<longrightarrow>
         payments (r_db (VerifyView_get gateway status authority cart d)) ! k = payments d ! k"
    by simp_all
next
  show "take (length (payments d))
     (payments (r_db (CheckoutCartView_post gateway' form usr meta cart' d))) = payments d"
    by (rule post_payments_step)
next
  assume "(\<exists>ref_id amount. r_response (VerifyView_get gateway status (Some a) cart d) =
        PaymentSuccess ref_id amount) \<or>
    r_response (VerifyView_get gateway status (Some a) cart d) =
        PaymentFailed ''Payment not verified!!'' \<or>
    r_response (VerifyView_get gateway status (Some a) cart d) =
        PaymentFailed ''Payment was canceled by the user.''"
  from verify_settled_no_pending[OF this]
  show "VerifyView_get gateway2 status2 (Some a) cart2
          (r_db (VerifyView_get gateway status (Some a) cart d)) =
        \<lparr>r_response = PaymentFailed ''There is no payment document!'',
         r_db = r_db (VerifyView_get gateway status (Some a) cart d),
         r_cart = cart2, r_sent = []\<rparr>"
    using verify_no_payment by blast
qed

theorem settlement_terminal_idempotent_witness:
  "VerifyView_get (\<lambda>vd. Body reply_verified) (Some ''OK'') (Some ''A1'') [(5, 2)]
     (r_db (VerifyView_get (\<lambda>vd. Body reply_verified) (Some ''OK'') (Some ''A1'') [(5, 2)]
        shop_pending)) =
     \<lparr>r_response = PaymentFailed ''There is no payment document!'',
      r_db = \<lparr>products = [tea\<lparr>p_count := 8\<rparr>],
              invoices = [tea_invoice\<lparr>i_number := Some 1\<rparr>],
              invoice_items = [tea_line],
              payments = [tea_payment\<lparr>pay_ref := PInt 777, pay_status := STATUS_DONE\<rparr>]\<rparr>,
      r_cart = [(5, 2)], r_sent = []\<rparr> \<and>
   payments (r_db (VerifyView_get (\<lambda>vd. Body reply_verified) (Some ''OK'') (Some ''A1'') []
     \<lparr>products = [tea\<lparr>p_count := 8\<rparr>],
      invoices = [tea_invoice\<lparr>i_number := Some 1\<rparr>],
      invoice_items = [tea_line],
      payments = [tea_payment\<lparr>pay_ref := PInt 777, pay_status := STATUS_DONE\<rparr>]\<rparr>)) ! 0 =
     tea_payment\<lparr>pay_ref := PInt 777, pay_status := STATUS_DONE\<rparr>"
proof -
  let ?gw = "\<lambda>vd :: verify_data. Body reply_verified"
  let ?d1 = "\<lparr>products = [tea\<lparr>p_count := 8\<rparr>],
      invoices = [tea_invoice\<lparr>i_number := Some 1\<rparr>],
      invoice_items = [tea_line],
      payments = [tea_payment\<lparr>pay_ref := PInt 777, pay_status := STATUS_DONE\<rparr>]\<rparr>"
  have settled: "(\<exists>ref_id amount.
      r_response (VerifyView_get ?gw (Some ''OK'') (Some ''A1'') [(5, 2)] shop_pending) =
        PaymentSuccess ref_id amount) \<or>
    r_response (VerifyView_get ?gw (Some ''OK'') (Some ''A1'') [(5, 2)] shop_pending) =
        PaymentFailed ''Payment not verified!!'' \<or>
    r_response (VerifyView_get ?gw (Some ''OK'') (Some ''A1'') [(5, 2)] shop_pending) =
        PaymentFailed ''Payment was canceled by the user.''"
    by (simp add: shop_verify)
  have keys: "distinct (map pay_id (payments ?d1))" by simp
  have row: "0 < length (payments ?d1) \<and> pay_status (payments ?d1 ! 0) \<noteq> STATUS_PENDING"
    by simp
  note first = settlement_terminal_idempotent[of shop_pending ?gw "Some ''OK''" "Some ''A1''"
      "[(5, 2)]" "\<lambda>rq. RequestFailed" valid_form buyer buyer_meta "[]" "''A1''" ?gw
      "Some ''OK''" "[(5, 2)]", THEN conjunct2, THEN conjunct2, THEN mp, OF settled]
  note second = settlement_terminal_idempotent[of ?d1 ?gw "Some ''OK''" "Some ''A1''"
      "[]" "\<lambda>rq. RequestFailed" valid_form buyer buyer_meta "[]" "''A1''" ?gw
      "Some ''OK''" "[]", THEN conjunct1, THEN mp, OF keys, THEN conjunct2]
  from first second row show ?thesis by (simp add: shop_verify)
qed

end
